theory Spec2Isabelle
  imports Main "HOL-Library.Word" "HOL-Library.Sublist"
begin

unbundle bit_operations_syntax

section \<open>Strings and the standard-library helpers used by main.go\<close>

text \<open>
  Go strings are byte strings; every string main.go builds itself is ASCII, so a Go string is
  a \<^typ>\<open>string\<close> and a rune of \<open>randomStringChars\<close> is a \<^typ>\<open>char\<close>.
\<close>

definition strings_HasPrefix :: "string \<Rightarrow> string \<Rightarrow> bool" where
  "strings_HasPrefix s p = (take (length p) s = p)"

definition strings_TrimPrefix :: "string \<Rightarrow> string \<Rightarrow> string" where
  "strings_TrimPrefix s p = (if strings_HasPrefix s p then drop (length p) s else s)"

text \<open>\<open>strings.Split(s, sep)\<close> for a one-byte separator: the pieces between the separators,
  so a string with k separators gives k + 1 pieces and the empty string gives one empty piece.\<close>

fun strings_Split :: "string \<Rightarrow> char \<Rightarrow> string list" where
  "strings_Split [] sep = [[]]"
| "strings_Split (c # cs) sep =
     (if c = sep then [] # strings_Split cs sep
      else (case strings_Split cs sep of
              [] \<Rightarrow> [[c]]
            | p # ps \<Rightarrow> (c # p) # ps))"

subsection \<open>randomString\<close>

definition randomStringChars :: string where
  "randomStringChars = ''abcdefghijklmnopqrstuvwxyzABCDEFGHIJKLMNOPQRSTUVWXYZ0123456789''"

text \<open>\<open>rand.Intn(n)\<close> returns a number in the half-open interval from 0 to n. The generator is
  the sequence \<open>rnd\<close> of raw draws of this process; the k-th call reduces the k-th draw.\<close>

definition rand_Intn :: "(nat \<Rightarrow> nat) \<Rightarrow> nat \<Rightarrow> nat \<Rightarrow> nat" where
  "rand_Intn rnd k n = rnd k mod n"

text \<open>The loop \<open>for i := 0; i < length; i++ { r[i] = availableRunes[rand.Intn(...)] }\<close>.\<close>

function randomString_loop :: "(nat \<Rightarrow> nat) \<Rightarrow> nat \<Rightarrow> nat \<Rightarrow> string \<Rightarrow> string" where
  "randomString_loop rnd len i r =
     (if i < len
      then randomString_loop rnd len (Suc i)
             (r[i := randomStringChars ! rand_Intn rnd i (length randomStringChars)])
      else r)"
  by pat_completeness auto
termination
  by (relation "measure (\<lambda>(rnd, len, i, r). len - i)") auto

declare randomString_loop.simps [simp del]

definition randomString :: "(nat \<Rightarrow> nat) \<Rightarrow> int \<Rightarrow> string" where
  "randomString rnd len =
     (if len < 1 then []
      else randomString_loop rnd (nat len) 0 (replicate (nat len) (CHR 0x00)))"

definition containerId :: "(nat \<Rightarrow> nat) \<Rightarrow> string" where
  "containerId rnd = ''b-'' @ randomString rnd 16"

text \<open>The alphabet of the identity, stated on character codes: a-z, A-Z, 0-9.\<close>

definition is_alnum :: "char \<Rightarrow> bool" where
  "is_alnum c =
     (let n = (of_char c :: nat)
      in (97 \<le> n \<and> n \<le> 122) \<or> (65 \<le> n \<and> n \<le> 90) \<or> (48 \<le> n \<and> n \<le> 57))"

subsection \<open>filepath.Join\<close>

text \<open>
  \<open>filepath.Join\<close> and \<open>filepath.Clean\<close> of Go's standard library on Linux, following the
  library's algorithm: \<open>Clean\<close> reads the path from left to right and writes into a buffer;
  \<open>dotdot\<close> is the buffer index that a \<open>..\<close> element may not backtrack past.
\<close>

text \<open>\<open>out.w--; for out.w > dotdot && !IsPathSeparator(out.index(out.w)) { out.w-- }\<close>,
  entered after the first decrement with the write index \<open>w\<close>.\<close>

fun lazybuf_backtrack :: "string \<Rightarrow> nat \<Rightarrow> nat \<Rightarrow> nat" where
  "lazybuf_backtrack buf 0 dotdot = 0"
| "lazybuf_backtrack buf (Suc w) dotdot =
     (if Suc w > dotdot \<and> buf ! Suc w \<noteq> CHR ''/''
      then lazybuf_backtrack buf w dotdot else Suc w)"

definition at_element_end :: "string \<Rightarrow> bool" where
  "at_element_end cs = (case cs of [] \<Rightarrow> True | x # _ \<Rightarrow> x = CHR ''/'')"

definition at_dot :: "string \<Rightarrow> bool" where
  "at_dot cs = (case cs of [] \<Rightarrow> False | x # _ \<Rightarrow> x = CHR ''.'')"

function Clean_loop :: "bool \<Rightarrow> string \<Rightarrow> string \<Rightarrow> nat \<Rightarrow> string" where
  "Clean_loop rooted [] out dotdot = out"
| "Clean_loop rooted (c # cs) out dotdot =
     (if c = CHR ''/'' then Clean_loop rooted cs out dotdot
      else if c = CHR ''.'' \<and> at_element_end cs then Clean_loop rooted cs out dotdot
      else if c = CHR ''.'' \<and> at_dot cs \<and> at_element_end (tl cs) then
        (if length out > dotdot
         then Clean_loop rooted (tl cs)
                (take (lazybuf_backtrack out (length out - 1) dotdot) out) dotdot
         else if \<not> rooted
         then (let out' = (if length out > 0 then out @ ''/'' else out) @ ''..''
               in Clean_loop rooted (tl cs) out' (length out'))
         else Clean_loop rooted (tl cs) out dotdot)
      else
        (let out' = (if rooted \<and> length out \<noteq> 1 \<or> \<not> rooted \<and> length out \<noteq> 0
                     then out @ ''/'' else out)
         in Clean_loop rooted (dropWhile (\<lambda>x. x \<noteq> CHR ''/'') cs)
              (out' @ c # takeWhile (\<lambda>x. x \<noteq> CHR ''/'') cs) dotdot))"
  by pat_completeness auto
termination
  by (relation "measure (\<lambda>(rooted, path, out, dotdot). length path)")
     (auto simp: length_dropWhile_le less_Suc_eq_le)

definition filepath_Clean :: "string \<Rightarrow> string" where
  "filepath_Clean path =
     (case path of
        [] \<Rightarrow> ''.''
      | c # cs \<Rightarrow>
          (let rooted = (c = CHR ''/'');
               out = (if rooted then Clean_loop True cs ''/'' 1
                      else Clean_loop False path [] 0)
           in if out = [] then ''.'' else out))"

text \<open>\<open>filepath.Join(a, b)\<close>: the first non-empty element onwards, joined with the separator
  and cleaned; the empty string when both are empty.\<close>

definition filepath_Join :: "string \<Rightarrow> string \<Rightarrow> string" where
  "filepath_Join a b =
     (if a \<noteq> [] then filepath_Clean (a @ ''/'' @ b)
      else if b \<noteq> [] then filepath_Clean b
      else [])"

subsection \<open>strconv\<close>

function show_nat :: "nat \<Rightarrow> string" where
  "show_nat n =
     (if n < 10 then [char_of (48 + n)]
      else show_nat (n div 10) @ [char_of (48 + n mod 10)])"
  by pat_completeness auto
termination
  by (relation "measure id") auto

declare show_nat.simps [simp del]

section \<open>The process and its environment\<close>

text \<open>
  The operations of package \<open>syscall\<close> and \<open>os\<close> that change kernel or filesystem state.
  \<open>MkdirAll\<close> carries the permission bits, \<open>Mount\<close> source, target, filesystem type, flags and
  data, \<open>Unmount\<close> target and flags, \<open>PivotRoot\<close> the new root and the place of the old one.
  \<open>Exec\<close> is \<open>syscall.Exec\<close>, the replacement of the process image; main.go never calls it.
\<close>

datatype syscall =
    Sethostname string
  | MkdirAll string nat
  | Mount string string string "64 word" string
  | Unmount string int
  | PivotRoot string string
  | Chdir string
  | Exec string "string list"

record sys_proc_attr =
  Cloneflags :: "64 word"
  Unshareflags :: "64 word"

text \<open>An \<open>exec.Cmd\<close>: the command name, its arguments, whether the three standard streams
  are those of the current process, and the process-creation attributes (nil when unset).\<close>

record cmd =
  cmd_name :: string
  cmd_args :: "string list"
  cmd_stdio :: bool
  cmd_attr :: "sys_proc_attr option"

text \<open>What \<open>cmd.Run()\<close> can give: the process could not be started (\<open>ProcessState\<close> stays nil),
  it ran and exited with a status of 8 bits, or it was ended by a signal.\<close>

datatype run_result = NotStarted string | Exited "8 word" | Signaled string

text \<open>The error \<open>cmd.Run()\<close> returns: nil exactly when the process ran and exited with 0.\<close>

fun run_err :: "run_result \<Rightarrow> string option" where
  "run_err (NotStarted e) = Some e"
| "run_err (Exited st) = (if st = 0 then None else Some (''exit status '' @ show_nat (unat st)))"
| "run_err (Signaled d) = Some (''signal: '' @ d)"

text \<open>\<open>cmd.ProcessState.ExitCode()\<close>: -1 on a nil \<open>ProcessState\<close> and for a process that did
  not exit by itself, the exit status otherwise.\<close>

fun ExitCode :: "run_result \<Rightarrow> int" where
  "ExitCode (NotStarted e) = - 1"
| "ExitCode (Exited st) = uint st"
| "ExitCode (Signaled d) = - 1"

text \<open>What the process does, in order: a state-changing call with the error it returned, a
  command run to its end with the result, a line printed to standard output or standard
  error, a line written by package \<open>log\<close> (its time stamp left out).\<close>

datatype event =
    Sys syscall "string option"
  | Run cmd run_result
  | StdoutLn string
  | StderrLn string
  | Log string

text \<open>
  The environment answers every call; the answer may depend on everything the process has
  done so far. \<open>os_Executable\<close> is the pair that \<open>os.Executable()\<close> returns, \<open>os_ReadDir\<close> the
  entries of a directory (name, formatted modification time, error of \<open>Info()\<close>) with the
  error of the listing, \<open>rand_source\<close> the raw draws of the random generator.
\<close>

record env =
  os_Executable :: "string \<times> string option"
  os_Getpid :: nat
  rand_source :: "nat \<Rightarrow> nat"
  kernel :: "event list \<Rightarrow> syscall \<Rightarrow> string option"
  cmd_result :: "event list \<Rightarrow> cmd \<Rightarrow> run_result"
  os_ReadDir :: "string \<Rightarrow> (string \<times> string \<times> string option) list \<times> string option"

text \<open>A computation either returns a value or ends the process with an exit code
  (\<open>os.Exit\<close>); it extends the history of events.\<close>

datatype 'a outcome = Ret 'a | Exit int

type_synonym 'a proc = "event list \<Rightarrow> 'a outcome \<times> event list"

definition ret :: "'a \<Rightarrow> 'a proc" where
  "ret x h = (Ret x, h)"

definition seq :: "'a proc \<Rightarrow> ('a \<Rightarrow> 'b proc) \<Rightarrow> 'b proc" where
  "seq m f h = (case m h of (Ret x, h') \<Rightarrow> f x h' | (Exit c, h') \<Rightarrow> (Exit c, h'))"

definition emit :: "event \<Rightarrow> unit proc" where
  "emit e h = (Ret (), h @ [e])"

definition sys :: "env \<Rightarrow> syscall \<Rightarrow> string option proc" where
  "sys env c h = (let r = kernel env h c in (Ret r, h @ [Sys c r]))"

definition cmd_Run :: "env \<Rightarrow> cmd \<Rightarrow> run_result proc" where
  "cmd_Run env c h = (let r = cmd_result env h c in (Ret r, h @ [Run c r]))"

definition os_Exit :: "int \<Rightarrow> 'a proc" where
  "os_Exit code h = (Exit code, h)"

text \<open>\<open>log.Fatal\<close> writes the message and calls \<open>os.Exit(1)\<close>.\<close>

definition log_Fatal :: "string \<Rightarrow> 'a proc" where
  "log_Fatal msg = seq (emit (Log msg)) (\<lambda>_. os_Exit 1)"

section \<open>main.go\<close>

definition containersDir :: string where
  "containersDir = ''./containers''"

definition rootFsTarball :: string where
  "rootFsTarball = ''./ubuntu-base-22.04-base-amd64.tar.gz''"

text \<open>The constants of package \<open>syscall\<close> on Linux that main.go uses.\<close>

definition MS_BIND :: "64 word" where "MS_BIND = 0x1000"
definition MS_REC :: "64 word" where "MS_REC = 0x4000"
definition CLONE_NEWNS :: "64 word" where "CLONE_NEWNS = 0x20000"
definition CLONE_NEWUTS :: "64 word" where "CLONE_NEWUTS = 0x4000000"
definition CLONE_NEWPID :: "64 word" where "CLONE_NEWPID = 0x20000000"

text \<open>The permission bits written 0700 (octal) in main.go.\<close>

definition perm_0700 :: nat where "perm_0700 = 7 * 64"

definition exitIfError :: "string option \<Rightarrow> string \<Rightarrow> unit proc" where
  "exitIfError err label =
     (case err of
        None \<Rightarrow> ret ()
      | Some e \<Rightarrow>
          (if length label > 0 then log_Fatal (label @ '': '' @ e)
           else log_Fatal e))"

definition unzipRootFsTarball :: "env \<Rightarrow> string \<Rightarrow> string \<Rightarrow> unit proc" where
  "unzipRootFsTarball env dest src =
     seq (sys env (MkdirAll dest perm_0700)) (\<lambda>err.
     seq (exitIfError err ''unzipRootFsTarball(): os.MkdirAll()'') (\<lambda>_.
     let c = \<lparr>cmd_name = ''tar'', cmd_args = [''-xzf'', src, ''-C'', dest],
              cmd_stdio = False, cmd_attr = None\<rparr>
     in seq (cmd_Run env c) (\<lambda>r.
        exitIfError (run_err r) ''unzipRootFsTarball(): tar cmd.Run()'')))"

definition pivotRoot :: "env \<Rightarrow> string \<Rightarrow> unit proc" where
  "pivotRoot env newRoot =
     seq (sys env (Mount newRoot newRoot [] (MS_BIND OR MS_REC) [])) (\<lambda>err.
     seq (exitIfError err ''pivotRoot(): syscall.Mount'') (\<lambda>_.
     let putOld = filepath_Join newRoot ''.put_old''
     in seq (sys env (MkdirAll putOld perm_0700)) (\<lambda>err.
        seq (exitIfError err ''pivotRoot(): putold os.MkdirAll'') (\<lambda>_.
        seq (sys env (PivotRoot newRoot putOld)) (\<lambda>err.
        seq (exitIfError err ''pivotRoot(): pivot_root'') (\<lambda>_.
        seq (sys env (Chdir ''/'')) (\<lambda>err.
        exitIfError err ''chdir'')))))))"

text \<open>
  The loop over the volumes in \<open>run\<close> (the body of \<open>for i, volume := range volumes\<close>):
  \<open>i\<close> is the index of the next volume and \<open>mountedVolumes\<close> the slice filled so far.
\<close>

fun mountVolumes :: "env \<Rightarrow> string \<Rightarrow> string list \<Rightarrow> nat \<Rightarrow> string list \<Rightarrow> string list proc" where
  "mountVolumes env rootfsDir [] i mountedVolumes = ret mountedVolumes"
| "mountVolumes env rootfsDir (volume # rest) i mountedVolumes =
     (let parts = strings_Split volume (CHR '':'')
      in if length parts \<noteq> 2 then log_Fatal (''invalid volume mapping: '' @ volume)
         else
           (let source = parts ! 0;
                target = filepath_Join rootfsDir (parts ! 1)
            in seq (sys env (MkdirAll target perm_0700)) (\<lambda>err.
               seq (exitIfError err ''mkdir target'') (\<lambda>_.
               seq (sys env (Mount source target [] (MS_BIND OR MS_REC) [])) (\<lambda>err.
               seq (exitIfError err ''mount volume'') (\<lambda>_.
               mountVolumes env rootfsDir rest (Suc i) (mountedVolumes[i := parts ! 1])))))))"

text \<open>
  A deferred call of \<open>run\<close>: the closure that unmounts every target of \<open>mountedVolumes\<close>,
  or \<open>syscall.Unmount(target, flags)\<close> with its result dropped. Deferred calls run, last
  registered first, when the function returns; \<open>os.Exit\<close> ends the process without running
  them.
\<close>

datatype deferred = UnmountVolumes "string list" | UnmountCall string int

primrec unmountVolumes :: "env \<Rightarrow> string list \<Rightarrow> unit proc" where
  "unmountVolumes env [] = ret ()"
| "unmountVolumes env (target # rest) =
     seq (sys env (Unmount target 0)) (\<lambda>err.
     seq (case err of
            None \<Rightarrow> ret ()
          | Some e \<Rightarrow> emit (Log (''failed to unmount '' @ target @ '': '' @ e))) (\<lambda>_.
     unmountVolumes env rest))"

fun run_deferred_call :: "env \<Rightarrow> deferred \<Rightarrow> unit proc" where
  "run_deferred_call env (UnmountVolumes mountedVolumes) = unmountVolumes env mountedVolumes"
| "run_deferred_call env (UnmountCall target flags) =
     seq (sys env (Unmount target flags)) (\<lambda>_. ret ())"

primrec run_deferred :: "env \<Rightarrow> deferred list \<Rightarrow> unit proc" where
  "run_deferred env [] = ret ()"
| "run_deferred env (d # ds) = seq (run_deferred_call env d) (\<lambda>_. run_deferred env ds)"

text \<open>The \<open>if isChild\<close> block of \<open>run\<close> (the bootstrap inside the new namespaces). It returns
  the deferred calls it has registered, the last one first.\<close>

definition run_isChild :: "env \<Rightarrow> string list \<Rightarrow> string \<Rightarrow> deferred list proc" where
  "run_isChild env volumes commandName =
     (let containerId = ''b-'' @ randomString (rand_source env) 16
      in seq (sys env (Sethostname containerId)) (\<lambda>err.
         seq (exitIfError err ''set hostname'') (\<lambda>_.
         let rootfsDir = filepath_Join containersDir containerId
         in seq (unzipRootFsTarball env rootfsDir rootFsTarball) (\<lambda>_.
            seq (mountVolumes env rootfsDir volumes 0 (replicate (length volumes) [])) (\<lambda>mountedVolumes.
            let deferred1 = [UnmountVolumes mountedVolumes]
            in seq (pivotRoot env rootfsDir) (\<lambda>_.
               seq (sys env (Mount ''proc'' ''/proc'' ''proc'' 0 [])) (\<lambda>err.
               seq (exitIfError err ''mount procfs'') (\<lambda>_.
               let deferred2 = UnmountCall ''/proc'' 0 # deferred1
               in seq (emit (StdoutLn (''pid '' @ show_nat (os_Getpid env) @ '' running '' @ commandName))) (\<lambda>_.
                  ret deferred2)))))))))"

text \<open>The process-creation attributes of the \<open>else\<close> block of \<open>run\<close>.\<close>

definition run_SysProcAttr :: sys_proc_attr where
  "run_SysProcAttr =
     \<lparr>Cloneflags = CLONE_NEWUTS OR CLONE_NEWPID OR CLONE_NEWNS,
      Unshareflags = CLONE_NEWNS\<rparr>"

text \<open>The body of \<open>run\<close> up to its last statement, \<open>os.Exit\<close>. The value it would return is
  the list of the deferred calls.\<close>

definition run_body :: "env \<Rightarrow> string list \<Rightarrow> string list \<Rightarrow> bool \<Rightarrow> deferred list proc" where
  "run_body env args volumes isChild =
     (if length args = 0 then log_Fatal ''at least 1 argument is required''
      else
        seq (if isChild
             then ret (args ! 0, if length args > 1 then drop 1 args else [])
             else (let (path, err) = os_Executable env
                   in seq (exitIfError err ''os.Executable()'') (\<lambda>_.
                      ret (path,
                           [''_child'']
                           @ (if length volumes > 0 then map (\<lambda>vol. ''-v='' @ vol) volumes else [])
                           @ args))))
          (\<lambda>(commandName, commandArgs).
        let c = \<lparr>cmd_name = commandName, cmd_args = commandArgs,
                 cmd_stdio = True, cmd_attr = None\<rparr>
        in seq (if isChild
                then seq (run_isChild env volumes commandName) (\<lambda>ds. ret (c, ds))
                else ret (c\<lparr>cmd_attr := Some run_SysProcAttr\<rparr>, []))
             (\<lambda>(c, ds).
           seq (cmd_Run env c) (\<lambda>r.
           seq (case run_err r of
                  None \<Rightarrow> ret ()
                | Some e \<Rightarrow> emit (StderrLn e)) (\<lambda>_.
           os_Exit (ExitCode r))))))"

definition run :: "env \<Rightarrow> string list \<Rightarrow> string list \<Rightarrow> bool \<Rightarrow> unit proc" where
  "run env args volumes isChild =
     seq (run_body env args volumes isChild) (\<lambda>ds. run_deferred env ds)"

primrec ps_loop :: "(string \<times> string \<times> string option) list \<Rightarrow> unit proc" where
  "ps_loop [] = ret ()"
| "ps_loop (file # files) =
     (case file of (name, modTime, err) \<Rightarrow>
        seq (exitIfError err ''ps(): file.Info()'') (\<lambda>_.
        seq (emit (StdoutLn (name @ '' '' @ modTime))) (\<lambda>_.
        ps_loop files)))"

definition ps :: "env \<Rightarrow> unit proc" where
  "ps env =
     (let (files, err) = os_ReadDir env containersDir
      in seq (exitIfError err ''ps(): os.ReadDir()'') (\<lambda>_. ps_loop files))"

text \<open>The loop of \<open>main\<close> over \<open>os.Args[2:]\<close> that separates the volume mappings from the rest.\<close>

fun main_loop :: "string list \<Rightarrow> string list \<Rightarrow> string list \<Rightarrow> string list \<times> string list" where
  "main_loop [] volumes args = (volumes, args)"
| "main_loop (arg # rest) volumes args =
     (if strings_HasPrefix arg ''-v=''
      then main_loop rest (volumes @ [strings_TrimPrefix arg ''-v='']) args
      else main_loop rest volumes (args @ [arg]))"

definition main :: "env \<Rightarrow> string list \<Rightarrow> unit proc" where
  "main env osArgs =
     (if length osArgs < 2 then log_Fatal ''a command is required''
      else
        (let command = osArgs ! 1
         in if command = ''run'' \<or> command = ''_child'' then
              (let (volumes, args) =
                     (if length osArgs > 2 then main_loop (drop 2 osArgs) [] [] else ([], []))
               in run env args volumes (command = ''_child''))
            else if command = ''ps'' then ps env
            else log_Fatal ''bad command''))"

definition init :: "env \<Rightarrow> unit proc" where
  "init env =
     seq (sys env (MkdirAll containersDir perm_0700)) (\<lambda>err.
     exitIfError err ''init containersDir'')"

text \<open>The whole process: \<open>init\<close>, then \<open>main\<close> on the argument vector, from an empty history.
  The result is the exit code (0 when \<open>main\<close> returns) and the events in order.\<close>

definition focker :: "env \<Rightarrow> string list \<Rightarrow> int \<times> event list" where
  "focker env osArgs =
     (case seq (init env) (\<lambda>_. main env osArgs) [] of
        (Ret _, h) \<Rightarrow> (0, h)
      | (Exit code, h) \<Rightarrow> (code, h))"

text \<open>
  The exit status that Linux records for a process that called \<open>os.Exit(code)\<close>, and that
  the parent reads from \<open>wait\<close>: the low 8 bits of the code.
\<close>

definition exit_status :: "int \<Rightarrow> 8 word" where
  "exit_status code = word_of_int code"

section \<open>The bootstrap as a plan of guarded steps\<close>

text \<open>
  Most of the child bootstrap has one shape: perform a call, and end the process through
  \<open>exitIfError\<close> when it failed. A plan is a list of such steps, each with the label that
  \<open>exitIfError\<close> is given; \<open>run_plan\<close> performs them in order. The functions of main.go are
  shown below to be plans, and the ordering properties are proved once for \<open>run_plan\<close>.
\<close>

datatype action = Call syscall | Start cmd

fun perform :: "env \<Rightarrow> action \<Rightarrow> string option proc" where
  "perform env (Call c) = sys env c"
| "perform env (Start c) = seq (cmd_Run env c) (\<lambda>r. ret (run_err r))"

primrec run_plan :: "env \<Rightarrow> (action \<times> string) list \<Rightarrow> unit proc" where
  "run_plan env [] = ret ()"
| "run_plan env (st # rest) =
     seq (perform env (fst st)) (\<lambda>err.
     seq (exitIfError err (snd st)) (\<lambda>_.
     run_plan env rest))"

text \<open>The action an event records (none for output lines), and whether it succeeded.\<close>

fun action_of :: "event \<Rightarrow> action option" where
  "action_of (Sys c r) = Some (Call c)"
| "action_of (Run c r) = Some (Start c)"
| "action_of e = None"

fun succeeded :: "event \<Rightarrow> bool" where
  "succeeded (Sys c r) = (r = None)"
| "succeeded (Run c r) = (run_err r = None)"
| "succeeded e = True"

primrec actions :: "event list \<Rightarrow> action list" where
  "actions [] = []"
| "actions (e # evs) =
     (case action_of e of None \<Rightarrow> actions evs | Some a \<Rightarrow> a # actions evs)"

definition is_step :: "event \<Rightarrow> bool" where
  "is_step e = (action_of e \<noteq> None)"

definition pivotRoot_plan :: "string \<Rightarrow> (action \<times> string) list" where
  "pivotRoot_plan newRoot =
     [(Call (Mount newRoot newRoot [] (MS_BIND OR MS_REC) []), ''pivotRoot(): syscall.Mount''),
      (Call (MkdirAll (filepath_Join newRoot ''.put_old'') perm_0700),
         ''pivotRoot(): putold os.MkdirAll''),
      (Call (PivotRoot newRoot (filepath_Join newRoot ''.put_old'')), ''pivotRoot(): pivot_root''),
      (Call (Chdir ''/''), ''chdir'')]"

definition tar_cmd :: "string \<Rightarrow> string \<Rightarrow> cmd" where
  "tar_cmd dest src =
     \<lparr>cmd_name = ''tar'', cmd_args = [''-xzf'', src, ''-C'', dest],
      cmd_stdio = False, cmd_attr = None\<rparr>"

definition unzip_plan :: "string \<Rightarrow> string \<Rightarrow> (action \<times> string) list" where
  "unzip_plan dest src =
     [(Call (MkdirAll dest perm_0700), ''unzipRootFsTarball(): os.MkdirAll()''),
      (Start (tar_cmd dest src), ''unzipRootFsTarball(): tar cmd.Run()'')]"

text \<open>The check the volume loop makes on a mapping string: exactly two pieces around \<open>:\<close>.\<close>

definition volume_valid :: "string \<Rightarrow> bool" where
  "volume_valid volume = (length (strings_Split volume (CHR '':'')) = 2)"

definition volume_source :: "string \<Rightarrow> string" where
  "volume_source volume = strings_Split volume (CHR '':'') ! 0"

definition volume_target :: "string \<Rightarrow> string \<Rightarrow> string" where
  "volume_target rootfsDir volume =
     filepath_Join rootfsDir (strings_Split volume (CHR '':'') ! 1)"

definition bind_mount :: "string \<Rightarrow> string \<Rightarrow> syscall" where
  "bind_mount rootfsDir volume =
     Mount (volume_source volume) (volume_target rootfsDir volume) [] (MS_BIND OR MS_REC) []"

definition volume_plan :: "string \<Rightarrow> string \<Rightarrow> (action \<times> string) list" where
  "volume_plan rootfsDir volume =
     [(Call (MkdirAll (volume_target rootfsDir volume) perm_0700), ''mkdir target''),
      (Call (bind_mount rootfsDir volume), ''mount volume'')]"

definition volumes_plan :: "string \<Rightarrow> string list \<Rightarrow> (action \<times> string) list" where
  "volumes_plan rootfsDir volumes = concat (map (volume_plan rootfsDir) volumes)"

text \<open>The slice \<open>mountedVolumes\<close> after the loop has gone through \<open>volumes\<close> from index \<open>i\<close>.\<close>

primrec mounted_after :: "string list \<Rightarrow> nat \<Rightarrow> string list \<Rightarrow> string list" where
  "mounted_after [] i mountedVolumes = mountedVolumes"
| "mounted_after (volume # rest) i mountedVolumes =
     mounted_after rest (Suc i) (mountedVolumes[i := strings_Split volume (CHR '':'') ! 1])"

text \<open>The directory of a container: \<open>containers/<identity>\<close>.\<close>

definition rootfs_of :: "string \<Rightarrow> string" where
  "rootfs_of ident = ''containers/'' @ ident"

definition mount_procfs :: syscall where
  "mount_procfs = Mount ''proc'' ''/proc'' ''proc'' 0 []"

text \<open>
  The guarded steps of the bootstrap for the identity \<open>ident\<close>: hostname, extraction, the
  volumes up to the first string that fails the check, and, when none fails, the root switch
  and the mount of \<open>/proc\<close>.
\<close>

definition guarded_steps :: "string \<Rightarrow> string list \<Rightarrow> (action \<times> string) list" where
  "guarded_steps ident volumes =
     [(Call (Sethostname ident), ''set hostname'')]
     @ unzip_plan (rootfs_of ident) rootFsTarball
     @ volumes_plan (rootfs_of ident) (takeWhile volume_valid volumes)
     @ (if list_all volume_valid volumes
        then pivotRoot_plan (rootfs_of ident) @ [(Call mount_procfs, ''mount procfs'')]
        else [])"

text \<open>The command the child runs for the user, and the one the launcher runs.\<close>

definition user_cmd :: "string list \<Rightarrow> cmd" where
  "user_cmd args =
     \<lparr>cmd_name = args ! 0, cmd_args = drop 1 args, cmd_stdio = True, cmd_attr = None\<rparr>"

definition launcher_cmd :: "string \<Rightarrow> string list \<Rightarrow> string list \<Rightarrow> cmd" where
  "launcher_cmd path args volumes =
     \<lparr>cmd_name = path,
      cmd_args = ''_child'' # map (\<lambda>vol. ''-v='' @ vol) volumes @ args,
      cmd_stdio = True,
      cmd_attr = Some run_SysProcAttr\<rparr>"

text \<open>
  The bootstrap as the specification lists it, for the identity \<open>ident\<close>: (1) set the
  hostname to the identity, (2) extract the base archive into \<open>containers/<identity>\<close>,
  (3) create the target of each volume and bind-mount the volume, (4) switch the root,
  (5) mount \<open>/proc\<close>, (6) launch the command.
\<close>

definition bootstrap_plan :: "string \<Rightarrow> string list \<Rightarrow> string list \<Rightarrow> action list" where
  "bootstrap_plan ident volumes args =
     [Call (Sethostname ident)]
     @ [Call (MkdirAll (''containers/'' @ ident) perm_0700),
        Start \<lparr>cmd_name = ''tar'',
               cmd_args = [''-xzf'', rootFsTarball, ''-C'', ''containers/'' @ ident],
               cmd_stdio = False, cmd_attr = None\<rparr>]
     @ concat (map (\<lambda>volume.
                 [Call (MkdirAll (volume_target (''containers/'' @ ident) volume) perm_0700),
                  Call (bind_mount (''containers/'' @ ident) volume)]) volumes)
     @ [Call (Mount (''containers/'' @ ident) (''containers/'' @ ident) [] (MS_BIND OR MS_REC) []),
        Call (MkdirAll (filepath_Join (''containers/'' @ ident) ''.put_old'') perm_0700),
        Call (PivotRoot (''containers/'' @ ident)
                (filepath_Join (''containers/'' @ ident) ''.put_old'')),
        Call (Chdir ''/'')]
     @ [Call (Mount ''proc'' ''/proc'' ''proc'' 0 [])]
     @ [Start (user_cmd args)]"

text \<open>The optional line on standard error after \<open>cmd.Run()\<close>.\<close>

definition err_line :: "run_result \<Rightarrow> event list" where
  "err_line r = (case run_err r of None \<Rightarrow> [] | Some e \<Rightarrow> [StderrLn e])"

text \<open>The mount calls and the unmount calls among a list of actions, in order.\<close>

fun mounts_of :: "action list \<Rightarrow> syscall list" where
  "mounts_of [] = []"
| "mounts_of (Call (Mount src tgt fstype flags data) # as) =
     Mount src tgt fstype flags data # mounts_of as"
| "mounts_of (a # as) = mounts_of as"

fun unmounts_of :: "action list \<Rightarrow> syscall list" where
  "unmounts_of [] = []"
| "unmounts_of (Call (Unmount tgt flags) # as) = Unmount tgt flags # unmounts_of as"
| "unmounts_of (a # as) = unmounts_of as"

text \<open>The mount calls and the unmount calls that a history records.\<close>

definition mount_calls :: "event list \<Rightarrow> syscall list" where
  "mount_calls evs = mounts_of (actions evs)"

definition unmount_calls :: "event list \<Rightarrow> syscall list" where
  "unmount_calls evs = unmounts_of (actions evs)"

text \<open>What a guarded step of the bootstrap can be: never an unmount, never a replacement of
  the process image, and no command that inherits the standard streams.\<close>

fun setup_action :: "action \<Rightarrow> bool" where
  "setup_action (Call (Unmount tgt flags)) = False"
| "setup_action (Call (Exec name argv)) = False"
| "setup_action (Call c) = True"
| "setup_action (Start c) = (\<not> cmd_stdio c)"

text \<open>A replacement of the process image.\<close>

fun is_exec :: "action \<Rightarrow> bool" where
  "is_exec (Call (Exec name argv)) = True"
| "is_exec a = False"

text \<open>The command that \<open>run\<close> hands to \<open>cmd.Run()\<close>.\<close>

definition command_of :: "env \<Rightarrow> string list \<Rightarrow> string list \<Rightarrow> bool \<Rightarrow> cmd" where
  "command_of env args volumes isChild =
     (if isChild then user_cmd args
      else launcher_cmd (fst (os_Executable env)) args volumes)"

text \<open>A mapping string with exactly two non-empty pieces around \<open>:\<close>.\<close>

definition two_nonempty_components :: "string \<Rightarrow> bool" where
  "two_nonempty_components volume =
     (case strings_Split volume (CHR '':'') of
        [a, b] \<Rightarrow> a \<noteq> [] \<and> b \<noteq> []
      | _ \<Rightarrow> False)"

section \<open>Concrete environments\<close>

text \<open>An environment in which every call succeeds and every command exits with 0.\<close>

definition env_ok :: env where
  "env_ok =
     \<lparr>os_Executable = (''/usr/local/bin/focker'', None),
      os_Getpid = 1,
      rand_source = (\<lambda>i. 7 * i + 3),
      kernel = (\<lambda>h c. None),
      cmd_result = (\<lambda>h c. Exited 0),
      os_ReadDir = (\<lambda>d. ([], None))\<rparr>"

text \<open>The same environment, except that the command that inherits the standard streams
  (the one \<open>run\<close> hands to \<open>cmd.Run()\<close>) ends as given.\<close>

definition env_cmd :: "run_result \<Rightarrow> env" where
  "env_cmd res =
     env_ok\<lparr>cmd_result := (\<lambda>h c. if cmd_stdio c then res else Exited 0)\<rparr>"

text \<open>
  The environment of a launcher whose re-executed process is the program itself, run in the
  environment \<open>inner\<close> on the argument vector of the command: \<open>cmd.Run()\<close> gives the exit
  status of that process.
\<close>

definition env_launching :: "env \<Rightarrow> env" where
  "env_launching inner =
     env_ok\<lparr>cmd_result :=
              (\<lambda>h c. Exited (exit_status (fst (focker inner (cmd_name c # cmd_args c)))))\<rparr>"

section \<open>Properties of randomString\<close>

lemma randomStringChars_length: "length randomStringChars = 62"
  by (simp add: randomStringChars_def)

lemma randomStringChars_alnum: "list_all is_alnum randomStringChars"
  by (simp add: randomStringChars_def is_alnum_def)

lemma randomStringChars_nth_alnum: "is_alnum (randomStringChars ! rand_Intn rnd k 62)"
proof -
  have "rand_Intn rnd k 62 < length randomStringChars"
    by (simp add: rand_Intn_def randomStringChars_length)
  with randomStringChars_alnum show ?thesis
    by (simp add: list_all_length)
qed

lemma randomString_loop_length: "length (randomString_loop rnd len i r) = length r"
proof (induction rnd len i r rule: randomString_loop.induct)
  case (1 rnd len i r)
  then show ?case
    by (subst randomString_loop.simps) simp
qed

lemma randomString_loop_alnum:
  "length r = len \<Longrightarrow> (\<And>j. j < i \<Longrightarrow> is_alnum (r ! j)) \<Longrightarrow> j < len
     \<Longrightarrow> is_alnum (randomString_loop rnd len i r ! j)"
proof (induction rnd len i r rule: randomString_loop.induct)
  case (1 rnd len i r)
  show ?case
  proof (cases "i < len")
    case True
    let ?r = "r[i := randomStringChars ! rand_Intn rnd i (length randomStringChars)]"
    have inv: "\<And>k. k < Suc i \<Longrightarrow> is_alnum (?r ! k)"
      using True "1.prems"(1,2) randomStringChars_nth_alnum
      by (auto simp: nth_list_update randomStringChars_length less_Suc_eq)
    have "is_alnum (randomString_loop rnd len (Suc i) ?r ! j)"
      using "1.IH" [OF True _ inv "1.prems"(3)] "1.prems"(1) by simp
    with True show ?thesis
      by (subst randomString_loop.simps) simp
  next
    case False
    with "1.prems" show ?thesis
      by (subst randomString_loop.simps) simp
  qed
qed

lemma randomString_length: "1 \<le> n \<Longrightarrow> length (randomString rnd n) = nat n"
  by (simp add: randomString_def randomString_loop_length)

lemma randomString_alnum: "list_all is_alnum (randomString rnd n)"
proof (cases "n < 1")
  case True
  then show ?thesis by (simp add: randomString_def)
next
  case False
  have "is_alnum (randomString_loop rnd (nat n) 0 (replicate (nat n) (CHR 0x00)) ! j)"
    if "j < nat n" for j
    using that by (intro randomString_loop_alnum) simp_all
  with False show ?thesis
    by (simp add: randomString_def list_all_length randomString_loop_length)
qed

text \<open>
  Claim C8. Every generated container identity is \<open>b-\<close> followed by exactly 16 characters,
  each of them a letter a-z or A-Z or a digit 0-9; that is, \<open>randomString(16)\<close> returns a
  string of length 16 over that alphabet, whatever the random generator draws.
\<close>

theorem containerId_format:
  "containerId rnd = ''b-'' @ randomString rnd 16
     \<and> length (randomString rnd 16) = 16
     \<and> list_all is_alnum (randomString rnd 16)"
  by (simp add: containerId_def randomString_length randomString_alnum)

section \<open>Laws of sequencing\<close>

lemma seq_ret [simp]: "seq (ret x) f = f x"
  by (rule ext) (simp add: seq_def ret_def)

lemma seq_ret_right [simp]: "seq m ret = m"
  by (rule ext) (simp add: seq_def ret_def split: prod.splits outcome.splits)

lemma seq_assoc [simp]: "seq (seq m f) g = seq m (\<lambda>x. seq (f x) g)"
  by (rule ext) (simp add: seq_def split: prod.splits outcome.splits)

lemma seq_os_Exit [simp]: "seq (os_Exit c) f = os_Exit c"
  by (rule ext) (simp add: seq_def os_Exit_def)

lemma seq_log_Fatal [simp]: "seq (log_Fatal msg) f = log_Fatal msg"
  by (simp add: log_Fatal_def)

lemma log_Fatal_apply: "log_Fatal msg h = (Exit 1, h @ [Log msg])"
  by (simp add: log_Fatal_def seq_def emit_def os_Exit_def)

lemma exitIfError_Some: "\<exists>msg. exitIfError (Some x) label = log_Fatal msg"
  by (auto simp: exitIfError_def)

lemma exitIfError_None [simp]: "exitIfError None label = ret ()"
  by (simp add: exitIfError_def)

section \<open>Properties of plans\<close>

lemma actions_append [simp]: "actions (xs @ ys) = actions xs @ actions ys"
  by (induction xs) (simp_all split: option.splits)

lemma perform_apply:
  "\<exists>e err. perform env a h = (Ret err, h @ [e]) \<and> action_of e = Some a
     \<and> (succeeded e \<longleftrightarrow> err = None)"
  by (cases a) (simp_all add: sys_def cmd_Run_def seq_def ret_def Let_def)

lemma run_plan_append:
  "run_plan env (p @ q) = seq (run_plan env p) (\<lambda>_. run_plan env q)"
  by (induction p) simp_all

text \<open>
  A plan either goes through, with one successful event for each step in order, or it ends
  the process with status 1 right after the first failing step and the line that
  \<open>log.Fatal\<close> writes: the steps before it succeeded and no later step was begun.
\<close>

lemma run_plan_result:
  "run_plan env plan h = (r, h') \<Longrightarrow>
     (r = Ret () \<and> (\<exists>evs. h' = h @ evs \<and> actions evs = map fst plan
                       \<and> list_all succeeded evs \<and> list_all is_step evs))
   \<or> (r = Exit 1 \<and> (\<exists>dn e msg. h' = h @ dn @ [e, Log msg] \<and> list_all succeeded dn
                       \<and> list_all is_step dn \<and> \<not> succeeded e \<and> is_step e
                       \<and> actions (dn @ [e]) = take (Suc (length dn)) (map fst plan)
                       \<and> length dn < length plan))"
proof (induction plan arbitrary: h)
  case Nil
  then show ?case by (simp add: ret_def)
next
  case (Cons st rest)
  obtain e err where p: "perform env (fst st) h = (Ret err, h @ [e])"
    and a: "action_of e = Some (fst st)" and s: "succeeded e \<longleftrightarrow> err = None"
    using perform_apply by blast
  show ?case
  proof (cases err)
    case None
    with Cons.prems p have "run_plan env rest (h @ [e]) = (r, h')"
      by (simp add: seq_def)
    from Cons.IH [OF this] show ?thesis
    proof (elim disjE conjE exE)
      fix evs
      assume "r = Ret ()" "h' = (h @ [e]) @ evs" "actions evs = map fst rest"
        "list_all succeeded evs" "list_all is_step evs"
      with a s None have "h' = h @ (e # evs) \<and> actions (e # evs) = map fst (st # rest)
          \<and> list_all succeeded (e # evs) \<and> list_all is_step (e # evs)"
        by (simp add: is_step_def)
      with \<open>r = Ret ()\<close> show ?thesis by blast
    next
      fix dn e' msg
      assume "r = Exit 1" "h' = (h @ [e]) @ dn @ [e', Log msg]" "list_all succeeded dn"
        "list_all is_step dn" "\<not> succeeded e'" "is_step e'"
        "actions (dn @ [e']) = take (Suc (length dn)) (map fst rest)" "length dn < length rest"
      with a s None have "h' = h @ (e # dn) @ [e', Log msg] \<and> list_all succeeded (e # dn)
          \<and> list_all is_step (e # dn) \<and> \<not> succeeded e' \<and> is_step e'
          \<and> actions ((e # dn) @ [e']) = take (Suc (length (e # dn))) (map fst (st # rest))
          \<and> length (e # dn) < length (st # rest)"
        by (simp add: is_step_def)
      with \<open>r = Exit 1\<close> show ?thesis by blast
    qed
  next
    case (Some x)
    obtain msg where "exitIfError (Some x) (snd st) = log_Fatal msg"
      using exitIfError_Some by blast
    with Cons.prems p Some have "r = Exit 1" "h' = h @ [] @ [e, Log msg]"
      by (simp_all add: seq_def log_Fatal_apply)
    moreover have "\<not> succeeded e" using s Some by simp
    ultimately show ?thesis using a by (force simp: is_step_def)
  qed
qed

section \<open>The functions of main.go as plans\<close>

lemma pivotRoot_is_plan: "pivotRoot env newRoot = run_plan env (pivotRoot_plan newRoot)"
  by (simp add: pivotRoot_def pivotRoot_plan_def Let_def)

lemma unzipRootFsTarball_is_plan:
  "unzipRootFsTarball env dest src = run_plan env (unzip_plan dest src)"
  by (simp add: unzipRootFsTarball_def unzip_plan_def tar_cmd_def Let_def)

lemma mountVolumes_valid:
  "list_all volume_valid volumes \<Longrightarrow>
   mountVolumes env rootfsDir volumes i mv =
     seq (run_plan env (volumes_plan rootfsDir volumes))
       (\<lambda>_. ret (mounted_after volumes i mv))"
proof (induction volumes arbitrary: i mv)
  case Nil
  then show ?case by (simp add: volumes_plan_def)
next
  case (Cons volume rest)
  then have r: "list_all volume_valid rest" and "volume_valid volume"
    by simp_all
  then have v: "length (strings_Split volume (CHR '':'')) = 2"
    by (simp add: volume_valid_def)
  have "volumes_plan rootfsDir (volume # rest)
          = volume_plan rootfsDir volume @ volumes_plan rootfsDir rest"
    by (simp add: volumes_plan_def)
  then show ?case
    using v Cons.IH [OF r]
    by (simp add: run_plan_append volume_plan_def bind_mount_def volume_source_def
        volume_target_def Let_def)
qed

lemma mountVolumes_invalid:
  "\<not> list_all volume_valid volumes \<Longrightarrow>
   mountVolumes env rootfsDir volumes i mv =
     seq (run_plan env (volumes_plan rootfsDir (takeWhile volume_valid volumes)))
       (\<lambda>_. log_Fatal (''invalid volume mapping: '' @ hd (dropWhile volume_valid volumes)))"
proof (induction volumes arbitrary: i mv)
  case Nil
  then show ?case by simp
next
  case (Cons volume rest)
  show ?case
  proof (cases "volume_valid volume")
    case False
    then have "length (strings_Split volume (CHR '':'')) \<noteq> 2"
      by (simp add: volume_valid_def)
    with False show ?thesis
      by (simp add: volumes_plan_def Let_def)
  next
    case True
    with Cons.prems have r: "\<not> list_all volume_valid rest" by simp
    from True have v: "length (strings_Split volume (CHR '':'')) = 2"
      by (simp add: volume_valid_def)
    have "volumes_plan rootfsDir (volume # takeWhile volume_valid rest)
            = volume_plan rootfsDir volume @ volumes_plan rootfsDir (takeWhile volume_valid rest)"
      by (simp add: volumes_plan_def)
    then show ?thesis
      using True v Cons.IH [OF r]
      by (simp add: run_plan_append volume_plan_def bind_mount_def volume_source_def
          volume_target_def Let_def)
  qed
qed

section \<open>The container directory\<close>

lemma alnum_not_separator: "list_all is_alnum s \<Longrightarrow> CHR ''/'' \<notin> set s"
  by (auto simp: list_all_iff is_alnum_def)

lemma Join_containersDir:
  "CHR ''/'' \<notin> set s \<Longrightarrow> filepath_Join containersDir (''b-'' @ s) = rootfs_of (''b-'' @ s)"
proof -
  assume s: "CHR ''/'' \<notin> set s"
  then have d: "dropWhile (\<lambda>x. x \<noteq> CHR ''/'') s = []"
    and t: "takeWhile (\<lambda>x. x \<noteq> CHR ''/'') s = s"
    by auto
  show ?thesis
    by (simp add: d t filepath_Join_def containersDir_def filepath_Clean_def rootfs_of_def
        at_element_end_def at_dot_def)
qed

lemma rootfsDir_of_containerId:
  "filepath_Join containersDir (''b-'' @ randomString rnd 16)
     = rootfs_of (''b-'' @ randomString rnd 16)"
  by (intro Join_containersDir alnum_not_separator randomString_alnum)

section \<open>The shape of every run\<close>

lemma run_isChild_is_plan:
  "run_isChild env volumes commandName =
     seq (run_plan env (guarded_steps (containerId (rand_source env)) volumes))
       (\<lambda>_. if list_all volume_valid volumes
             then seq (emit (StdoutLn (''pid '' @ show_nat (os_Getpid env) @ '' running ''
                                        @ commandName)))
                    (\<lambda>_. ret [UnmountCall ''/proc'' 0,
                               UnmountVolumes
                                 (mounted_after volumes 0 (replicate (length volumes) []))])
             else log_Fatal (''invalid volume mapping: '' @ hd (dropWhile volume_valid volumes)))"
proof (cases "list_all volume_valid volumes")
  case True
  then have t: "takeWhile volume_valid volumes = volumes"
    by (simp add: list_all_iff)
  from True show ?thesis
    unfolding run_isChild_def containerId_def Let_def rootfsDir_of_containerId
    by (simp add: t unzipRootFsTarball_is_plan pivotRoot_is_plan mountVolumes_valid
        guarded_steps_def run_plan_append mount_procfs_def)
next
  case False
  then show ?thesis
    unfolding run_isChild_def containerId_def Let_def rootfsDir_of_containerId
    by (simp add: unzipRootFsTarball_is_plan mountVolumes_invalid guarded_steps_def
        run_plan_append)
qed

lemma run_child_unfold:
  "args \<noteq> [] \<Longrightarrow>
   run env args volumes True =
     seq (run_plan env (guarded_steps (containerId (rand_source env)) volumes))
       (\<lambda>_. if list_all volume_valid volumes
             then seq (emit (StdoutLn (''pid '' @ show_nat (os_Getpid env) @ '' running ''
                                        @ args ! 0)))
                    (\<lambda>_. seq (cmd_Run env (user_cmd args)) (\<lambda>r.
                          seq (case run_err r of None \<Rightarrow> ret () | Some e \<Rightarrow> emit (StderrLn e))
                            (\<lambda>_. os_Exit (ExitCode r))))
             else log_Fatal (''invalid volume mapping: '' @ hd (dropWhile volume_valid volumes)))"
proof -
  assume "args \<noteq> []"
  then have d: "(if 1 < length args then drop 1 args else []) = drop 1 args"
    by (cases args) auto
  have c: "seq (if b then f else g) k = (if b then seq f k else seq g k)"
    for b and f g :: "'a proc" and k :: "'a \<Rightarrow> 'b proc"
    by simp
  from \<open>args \<noteq> []\<close> show ?thesis
    by (simp add: run_def run_body_def run_isChild_is_plan user_cmd_def d c
        del: One_nat_def)
qed

lemma run_child_cases [consumes 2, case_names Failed Invalid Launched]:
  assumes "args \<noteq> []" and "run env args volumes True h = (r, h')"
  obtains
    (Failed) dn e msg where
      "r = Exit 1" "h' = h @ dn @ [e, Log msg]"
      "list_all succeeded dn" "list_all is_step dn" "\<not> succeeded e" "is_step e"
      "actions (dn @ [e])
         = take (Suc (length dn)) (map fst (guarded_steps (containerId (rand_source env)) volumes))"
      "length dn < length (guarded_steps (containerId (rand_source env)) volumes)"
  | (Invalid) evs where
      "\<not> list_all volume_valid volumes" "r = Exit 1"
      "h' = h @ evs @ [Log (''invalid volume mapping: '' @ hd (dropWhile volume_valid volumes))]"
      "actions evs = map fst (guarded_steps (containerId (rand_source env)) volumes)"
      "list_all succeeded evs" "list_all is_step evs"
  | (Launched) evs res where
      "list_all volume_valid volumes" "r = Exit (ExitCode res)"
      "h' = h @ evs
              @ [StdoutLn (''pid '' @ show_nat (os_Getpid env) @ '' running '' @ args ! 0),
                 Run (user_cmd args) res]
              @ err_line res"
      "actions evs = map fst (guarded_steps (containerId (rand_source env)) volumes)"
      "list_all succeeded evs" "list_all is_step evs"
proof -
  let ?P = "guarded_steps (containerId (rand_source env)) volumes"
  obtain r1 h1 where p: "run_plan env ?P h = (r1, h1)"
    by (cases "run_plan env ?P h")
  from run_plan_result [OF p] show thesis
  proof (elim disjE conjE exE)
    fix dn e msg
    assume f: "r1 = Exit 1" "h1 = h @ dn @ [e, Log msg]" and rest: "list_all succeeded dn"
      "list_all is_step dn" "\<not> succeeded e" "is_step e"
      "actions (dn @ [e]) = take (Suc (length dn)) (map fst ?P)" "length dn < length ?P"
    from assms p f have "r = Exit 1" "h' = h @ dn @ [e, Log msg]"
      by (simp_all add: run_child_unfold seq_def)
    from this rest show thesis by (rule Failed)
  next
    fix evs
    assume ok: "r1 = Ret ()" "h1 = h @ evs" and rest: "actions evs = map fst ?P"
      "list_all succeeded evs" "list_all is_step evs"
    show thesis
    proof (cases "list_all volume_valid volumes")
      case False
      with assms p ok have "r = Exit 1"
        "h' = h @ evs @ [Log (''invalid volume mapping: '' @ hd (dropWhile volume_valid volumes))]"
        by (simp_all add: run_child_unfold seq_def log_Fatal_apply)
      with False rest show thesis by (intro Invalid)
    next
      case True
      let ?out = "StdoutLn (''pid '' @ show_nat (os_Getpid env) @ '' running '' @ args ! 0)"
      let ?res = "cmd_result env (h @ evs @ [?out]) (user_cmd args)"
      from True assms p ok have "r = Exit (ExitCode ?res)"
        "h' = h @ evs @ [?out, Run (user_cmd args) ?res] @ err_line ?res"
        by (simp_all add: run_child_unfold seq_def emit_def cmd_Run_def os_Exit_def ret_def
            err_line_def Let_def split: option.splits)
      with True rest show thesis by (intro Launched)
    qed
  qed
qed

lemma run_no_args:
  "run env [] volumes isChild h = (Exit 1, h @ [Log ''at least 1 argument is required''])"
  by (simp add: run_def run_body_def log_Fatal_apply)

lemma run_launcher_unfold:
  "args \<noteq> [] \<Longrightarrow>
   run env args volumes False =
     seq (exitIfError (snd (os_Executable env)) ''os.Executable()'') (\<lambda>_.
     seq (cmd_Run env (launcher_cmd (fst (os_Executable env)) args volumes)) (\<lambda>r.
     seq (case run_err r of None \<Rightarrow> ret () | Some e \<Rightarrow> emit (StderrLn e)) (\<lambda>_.
     os_Exit (ExitCode r))))"
proof -
  assume "args \<noteq> []"
  have p: "(@) ''-v='' = (\<lambda>vol. CHR ''-'' # CHR ''v'' # CHR ''='' # vol)"
    by (rule ext) simp
  from \<open>args \<noteq> []\<close> show ?thesis
    by (cases "os_Executable env") (simp add: run_def run_body_def launcher_cmd_def p)
qed

lemma run_launcher_cases [consumes 2, case_names NoExecutable Launched]:
  assumes "args \<noteq> []" and "run env args volumes False h = (r, h')"
  obtains
    (NoExecutable) msg where
      "snd (os_Executable env) \<noteq> None" "r = Exit 1" "h' = h @ [Log msg]"
  | (Launched) res where
      "snd (os_Executable env) = None" "r = Exit (ExitCode res)"
      "h' = h @ [Run (launcher_cmd (fst (os_Executable env)) args volumes) res] @ err_line res"
proof (cases "snd (os_Executable env)")
  case (Some x)
  obtain msg where "exitIfError (Some x) ''os.Executable()'' = log_Fatal msg"
    using exitIfError_Some by blast
  with assms Some have "r = Exit 1" "h' = h @ [Log msg]"
    by (simp_all add: run_launcher_unfold log_Fatal_apply)
  with Some show thesis by (intro NoExecutable) simp_all
next
  case None
  let ?c = "launcher_cmd (fst (os_Executable env)) args volumes"
  let ?res = "cmd_result env h ?c"
  from None assms have "r = Exit (ExitCode ?res)" "h' = h @ [Run ?c ?res] @ err_line ?res"
    by (simp_all add: run_launcher_unfold seq_def emit_def cmd_Run_def os_Exit_def ret_def
        err_line_def Let_def split: option.splits)
  with None show thesis by (intro Launched)
qed

section \<open>What the guarded steps contain\<close>

lemma guarded_steps_setup:
  "a \<in> set (map fst (guarded_steps ident volumes)) \<Longrightarrow> setup_action a"
  by (auto simp: guarded_steps_def unzip_plan_def tar_cmd_def volumes_plan_def volume_plan_def
      bind_mount_def pivotRoot_plan_def mount_procfs_def split: if_splits)

lemma event_in_actions: "e \<in> set evs \<Longrightarrow> action_of e = Some a \<Longrightarrow> a \<in> set (actions evs)"
  by (induction evs) (auto split: option.splits)

lemma filter_is_step_id: "list_all is_step evs \<Longrightarrow> filter is_step evs = evs"
  by (simp add: list_all_iff)

lemma err_line_no_step [simp]: "filter is_step (err_line res) = []" "actions (err_line res) = []"
  by (simp_all add: err_line_def is_step_def split: option.splits)

lemma list_all_butlast: "list_all P xs \<Longrightarrow> list_all P (butlast xs)"
  by (auto simp: list_all_iff dest: in_set_butlastD)

lemma volumes_plan_actions:
  "map fst (volumes_plan rootfsDir volumes)
     = concat (map (\<lambda>volume. [Call (MkdirAll (volume_target rootfsDir volume) perm_0700),
                               Call (bind_mount rootfsDir volume)]) volumes)"
  by (induction volumes) (simp_all add: volumes_plan_def volume_plan_def)

lemma bootstrap_plan_valid:
  "list_all volume_valid volumes \<Longrightarrow>
   bootstrap_plan ident volumes args
     = map fst (guarded_steps ident volumes) @ [Start (user_cmd args)]"
proof -
  assume "list_all volume_valid volumes"
  then have t: "takeWhile volume_valid volumes = volumes"
    by (simp add: list_all_iff)
  from \<open>list_all volume_valid volumes\<close> show ?thesis
    by (simp add: t bootstrap_plan_def guarded_steps_def unzip_plan_def tar_cmd_def
        volumes_plan_actions pivotRoot_plan_def mount_procfs_def rootfs_of_def)
qed

lemma guarded_steps_prefix:
  "prefix (map fst (guarded_steps ident volumes)) (bootstrap_plan ident volumes args)"
proof (cases "list_all volume_valid volumes")
  case True
  then show ?thesis by (simp add: bootstrap_plan_valid)
next
  case False
  let ?f = "\<lambda>volume. [Call (MkdirAll (volume_target (rootfs_of ident) volume) perm_0700),
                       Call (bind_mount (rootfs_of ident) volume)]"
  have "concat (map ?f volumes)
          = concat (map ?f (takeWhile volume_valid volumes))
            @ concat (map ?f (dropWhile volume_valid volumes))"
    by (metis concat_append map_append takeWhile_dropWhile_id)
  with False show ?thesis
    by (simp add: bootstrap_plan_def guarded_steps_def unzip_plan_def tar_cmd_def
        volumes_plan_actions rootfs_of_def)
qed

lemma take_guarded_prefix:
  "prefix (take n (map fst (guarded_steps ident volumes))) (bootstrap_plan ident volumes args)"
  using guarded_steps_prefix take_is_prefix prefix_order.trans by blast

section \<open>The root switch\<close>

text \<open>
  Claim C6. The root switch, given \<open>newRoot\<close>, performs exactly four steps in this order:
  the recursive bind mount of \<open>newRoot\<close> onto itself, the creation of the directory
  \<open>.put_old\<close> inside \<open>newRoot\<close>, the pivot that makes \<open>newRoot\<close> the root and puts the old
  root under \<open>newRoot/.put_old\<close>, and the change of the working directory to \<open>/\<close>. Each
  failure is fatal: either all four calls are made and succeed and \<open>pivotRoot\<close> returns, or
  the process ends with status 1 right after the first failing call, the calls before it
  being the first ones of the four, all successful, and no later call being made.
\<close>

theorem pivotRoot_four_steps:
  assumes "pivotRoot env newRoot h = (r, h')"
  shows "\<exists>evs. h' = h @ evs \<and>
     ((r = Ret () \<and> list_all is_step evs \<and> list_all succeeded evs
         \<and> actions evs =
             [Call (Mount newRoot newRoot [] (MS_BIND OR MS_REC) []),
              Call (MkdirAll (filepath_Join newRoot ''.put_old'') perm_0700),
              Call (PivotRoot newRoot (filepath_Join newRoot ''.put_old'')),
              Call (Chdir ''/'')])
      \<or> (r = Exit 1 \<and>
           (\<exists>dn e msg. evs = dn @ [e, Log msg] \<and> list_all is_step dn \<and> list_all succeeded dn
              \<and> is_step e \<and> \<not> succeeded e \<and> length dn < 4
              \<and> actions (dn @ [e]) =
                  take (Suc (length dn))
                    [Call (Mount newRoot newRoot [] (MS_BIND OR MS_REC) []),
                     Call (MkdirAll (filepath_Join newRoot ''.put_old'') perm_0700),
                     Call (PivotRoot newRoot (filepath_Join newRoot ''.put_old'')),
                     Call (Chdir ''/'')])))"
proof -
  from assms have "run_plan env (pivotRoot_plan newRoot) h = (r, h')"
    by (simp add: pivotRoot_is_plan)
  from run_plan_result [OF this] show ?thesis
    by (elim disjE conjE exE) (simp_all add: pivotRoot_plan_def)
qed

theorem pivotRoot_four_steps_witness:
  "pivotRoot env_ok ''containers/b-dkryFMT07elszGNU'' []
     = (Ret (),
        [Sys (Mount ''containers/b-dkryFMT07elszGNU'' ''containers/b-dkryFMT07elszGNU'' []
                0x5000 []) None,
         Sys (MkdirAll ''containers/b-dkryFMT07elszGNU/.put_old'' 448) None,
         Sys (PivotRoot ''containers/b-dkryFMT07elszGNU''
                ''containers/b-dkryFMT07elszGNU/.put_old'') None,
         Sys (Chdir ''/'') None])
   \<and> actions
        [Sys (Mount ''containers/b-dkryFMT07elszGNU'' ''containers/b-dkryFMT07elszGNU'' []
                0x5000 []) None,
         Sys (MkdirAll ''containers/b-dkryFMT07elszGNU/.put_old'' 448) None,
         Sys (PivotRoot ''containers/b-dkryFMT07elszGNU''
                ''containers/b-dkryFMT07elszGNU/.put_old'') None,
         Sys (Chdir ''/'') None]
       = [Call (Mount ''containers/b-dkryFMT07elszGNU'' ''containers/b-dkryFMT07elszGNU''
                  [] (MS_BIND OR MS_REC) []),
          Call (MkdirAll (filepath_Join ''containers/b-dkryFMT07elszGNU'' ''.put_old'')
                  perm_0700),
          Call (PivotRoot ''containers/b-dkryFMT07elszGNU''
                  (filepath_Join ''containers/b-dkryFMT07elszGNU'' ''.put_old'')),
          Call (Chdir ''/'')]"
proof -
  let ?evs = "[Sys (Mount ''containers/b-dkryFMT07elszGNU'' ''containers/b-dkryFMT07elszGNU'' []
                0x5000 []) None,
         Sys (MkdirAll ''containers/b-dkryFMT07elszGNU/.put_old'' 448) None,
         Sys (PivotRoot ''containers/b-dkryFMT07elszGNU''
                ''containers/b-dkryFMT07elszGNU/.put_old'') None,
         Sys (Chdir ''/'') None]"
  have ok: "pivotRoot env_ok ''containers/b-dkryFMT07elszGNU'' [] = (Ret (), ?evs)"
    by code_simp
  from pivotRoot_four_steps [OF ok] ok show ?thesis
    by (metis append_Nil outcome.distinct(1))
qed

section \<open>The order of the bootstrap\<close>

text \<open>
  Claim C5. In every \<open>_child\<close> bootstrap the steps are executed in strict order: set the
  hostname to the generated identity, extract the base archive into
  \<open>containers/<identity>\<close>, bind-mount each requested volume, switch the root, mount
  \<open>/proc\<close>, and only then launch the command. The calls made are an initial segment of that
  plan, in its order; every call but the last one made has succeeded, so no step begins
  after a failure; and when nothing fails and every volume string passes the check, the
  whole plan is carried out.
\<close>

theorem bootstrap_strict_order:
  assumes "args \<noteq> []" and "run env args volumes True h = (r, h')"
  shows "\<exists>evs. h' = h @ evs
     \<and> prefix (actions evs) (bootstrap_plan (containerId (rand_source env)) volumes args)
     \<and> list_all succeeded (butlast (filter is_step evs))
     \<and> (list_all succeeded (filter is_step evs) \<and> list_all volume_valid volumes
          \<longrightarrow> actions evs = bootstrap_plan (containerId (rand_source env)) volumes args)"
  using assms
proof (cases rule: run_child_cases)
  case (Failed dn e msg)
  let ?evs = "dn @ [e, Log msg]"
  have f: "filter is_step ?evs = dn @ [e]"
    using Failed(4,6) by (simp add: filter_is_step_id is_step_def)
  have "actions ?evs = actions (dn @ [e])"
    by (simp split: option.splits)
  then have "prefix (actions ?evs) (bootstrap_plan (containerId (rand_source env)) volumes args)"
    using Failed(7) take_guarded_prefix by metis
  moreover have "list_all succeeded (butlast (filter is_step ?evs))"
    using Failed(3) by (simp only: f butlast_snoc)
  moreover have "\<not> list_all succeeded (filter is_step ?evs)"
    unfolding f using Failed(5) by simp
  ultimately show ?thesis using Failed(2) by blast
next
  case (Invalid evs)
  let ?evs = "evs @ [Log (''invalid volume mapping: '' @ hd (dropWhile volume_valid volumes))]"
  have f: "filter is_step ?evs = evs"
    using Invalid(6) by (simp add: filter_is_step_id is_step_def)
  have "prefix (actions ?evs) (bootstrap_plan (containerId (rand_source env)) volumes args)"
    using Invalid(4) guarded_steps_prefix by simp
  moreover have "list_all succeeded (butlast (filter is_step ?evs))"
    using Invalid(5) by (simp only: f list_all_butlast)
  ultimately show ?thesis using Invalid(1,3) by blast
next
  case (Launched evs res)
  let ?evs = "evs @ [StdoutLn (''pid '' @ show_nat (os_Getpid env) @ '' running '' @ args ! 0),
                     Run (user_cmd args) res] @ err_line res"
  have f: "filter is_step ?evs = evs @ [Run (user_cmd args) res]"
    using Launched(6) by (simp add: filter_is_step_id is_step_def)
  have "actions ?evs = bootstrap_plan (containerId (rand_source env)) volumes args"
    using Launched(1,4) by (simp add: bootstrap_plan_valid)
  moreover have "list_all succeeded (butlast (filter is_step ?evs))"
    using Launched(5) by (simp only: f butlast_snoc)
  ultimately show ?thesis using Launched(3) by (metis prefix_order.refl)
qed

theorem bootstrap_strict_order_witness:
  "[''/bin/true''] \<noteq> []
   \<and> run env_ok [''/bin/true''] [''/host/data:/data''] True []
       = (Exit 0,
          [Sys (Sethostname ''b-dkryFMT07elszGNU'') None,
           Sys (MkdirAll ''containers/b-dkryFMT07elszGNU'' 448) None,
           Run \<lparr>cmd_name = ''tar'',
                  cmd_args = [''-xzf'', ''./ubuntu-base-22.04-base-amd64.tar.gz'', ''-C'',
                              ''containers/b-dkryFMT07elszGNU''],
                  cmd_stdio = False, cmd_attr = None\<rparr> (Exited 0),
           Sys (MkdirAll ''containers/b-dkryFMT07elszGNU/data'' 448) None,
           Sys (Mount ''/host/data'' ''containers/b-dkryFMT07elszGNU/data'' [] 0x5000 []) None,
           Sys (Mount ''containers/b-dkryFMT07elszGNU'' ''containers/b-dkryFMT07elszGNU'' []
                  0x5000 []) None,
           Sys (MkdirAll ''containers/b-dkryFMT07elszGNU/.put_old'' 448) None,
           Sys (PivotRoot ''containers/b-dkryFMT07elszGNU''
                  ''containers/b-dkryFMT07elszGNU/.put_old'') None,
           Sys (Chdir ''/'') None,
           Sys (Mount ''proc'' ''/proc'' ''proc'' 0 []) None,
           StdoutLn ''pid 1 running /bin/true'',
           Run \<lparr>cmd_name = ''/bin/true'', cmd_args = [], cmd_stdio = True,
                  cmd_attr = None\<rparr> (Exited 0)])
   \<and> (\<exists>evs. snd (run env_ok [''/bin/true''] [''/host/data:/data''] True []) = [] @ evs
         \<and> actions evs
             = bootstrap_plan (containerId (rand_source env_ok)) [''/host/data:/data'']
                 [''/bin/true''])"
proof -
  let ?evs = "[Sys (Sethostname ''b-dkryFMT07elszGNU'') None,
           Sys (MkdirAll ''containers/b-dkryFMT07elszGNU'' 448) None,
           Run \<lparr>cmd_name = ''tar'',
                  cmd_args = [''-xzf'', ''./ubuntu-base-22.04-base-amd64.tar.gz'', ''-C'',
                              ''containers/b-dkryFMT07elszGNU''],
                  cmd_stdio = False, cmd_attr = None\<rparr> (Exited 0),
           Sys (MkdirAll ''containers/b-dkryFMT07elszGNU/data'' 448) None,
           Sys (Mount ''/host/data'' ''containers/b-dkryFMT07elszGNU/data'' [] 0x5000 []) None,
           Sys (Mount ''containers/b-dkryFMT07elszGNU'' ''containers/b-dkryFMT07elszGNU'' []
                  0x5000 []) None,
           Sys (MkdirAll ''containers/b-dkryFMT07elszGNU/.put_old'' 448) None,
           Sys (PivotRoot ''containers/b-dkryFMT07elszGNU''
                  ''containers/b-dkryFMT07elszGNU/.put_old'') None,
           Sys (Chdir ''/'') None,
           Sys (Mount ''proc'' ''/proc'' ''proc'' 0 []) None,
           StdoutLn ''pid 1 running /bin/true'',
           Run \<lparr>cmd_name = ''/bin/true'', cmd_args = [], cmd_stdio = True,
                  cmd_attr = None\<rparr> (Exited 0)]"
  have a: "[''/bin/true''] \<noteq> []"
    by simp
  have ok: "run env_ok [''/bin/true''] [''/host/data:/data''] True [] = (Exit 0, ?evs)"
    by code_simp
  have s: "list_all succeeded (filter is_step ?evs)"
    by code_simp
  have v: "list_all volume_valid [''/host/data:/data'']"
    by code_simp
  from bootstrap_strict_order [OF a ok] obtain evs where
    "?evs = [] @ evs"
    "list_all succeeded (filter is_step evs) \<and> list_all volume_valid [''/host/data:/data'']
       \<longrightarrow> actions evs = bootstrap_plan (containerId (rand_source env_ok))
                            [''/host/data:/data''] [''/bin/true'']"
    by blast
  with s v have "\<exists>evs. ?evs = [] @ evs
         \<and> actions evs
             = bootstrap_plan (containerId (rand_source env_ok)) [''/host/data:/data'']
                 [''/bin/true'']"
    by (metis append_Nil)
  with a ok show ?thesis
    by (simp only: snd_conv simp_thms)
qed

section \<open>The events of the guarded steps\<close>

lemma guarded_event_setup:
  assumes "actions evs = take n (map fst (guarded_steps ident volumes))"
    and "e \<in> set evs" and "action_of e = Some a"
  shows "setup_action a"
proof -
  from assms(2,3) have "a \<in> set (actions evs)"
    by (rule event_in_actions)
  with assms(1) have "a \<in> set (map fst (guarded_steps ident volumes))"
    by (metis in_set_takeD)
  then show ?thesis by (rule guarded_steps_setup)
qed

lemma guarded_all_event_setup:
  assumes "actions evs = map fst (guarded_steps ident volumes)"
    and "e \<in> set evs" and "action_of e = Some a"
  shows "setup_action a"
proof -
  from assms(1) have "actions evs
      = take (length (guarded_steps ident volumes)) (map fst (guarded_steps ident volumes))"
    by simp
  from this assms(2,3) show ?thesis by (rule guarded_event_setup)
qed

lemma setup_actions_no_exec: "list_all setup_action as \<Longrightarrow> filter is_exec as = []"
proof (induction as)
  case Nil
  then show ?case by simp
next
  case (Cons a as)
  then show ?case by (cases a rule: setup_action.cases) simp_all
qed

lemma setup_actions_no_unmount: "list_all setup_action as \<Longrightarrow> unmounts_of as = []"
proof (induction as)
  case Nil
  then show ?case by simp
next
  case (Cons a as)
  then show ?case by (cases a rule: setup_action.cases) simp_all
qed

lemma guarded_steps_all_setup:
  "list_all setup_action (map fst (guarded_steps ident volumes))"
  using guarded_steps_setup by (auto simp: list_all_iff)

lemma take_all_setup: "list_all setup_action as \<Longrightarrow> list_all setup_action (take n as)"
  by (auto simp: list_all_iff dest: in_set_takeD)

lemma mounts_of_append [simp]: "mounts_of (xs @ ys) = mounts_of xs @ mounts_of ys"
  by (induction xs rule: mounts_of.induct) simp_all

lemma unmounts_of_append [simp]: "unmounts_of (xs @ ys) = unmounts_of xs @ unmounts_of ys"
  by (induction xs rule: unmounts_of.induct) simp_all

lemma mounts_of_prefix: "prefix xs ys \<Longrightarrow> prefix (mounts_of xs) (mounts_of ys)"
  by (auto simp: prefix_def)

lemma mounts_of_volumes_plan:
  "mounts_of (map fst (volumes_plan rootfsDir volumes)) = map (bind_mount rootfsDir) volumes"
  by (induction volumes) (simp_all add: volumes_plan_def volume_plan_def bind_mount_def)

lemma mounts_of_guarded_invalid:
  "\<not> list_all volume_valid volumes \<Longrightarrow>
   mounts_of (map fst (guarded_steps ident volumes))
     = map (bind_mount (rootfs_of ident)) (takeWhile volume_valid volumes)"
  by (simp add: guarded_steps_def unzip_plan_def mounts_of_volumes_plan)

section \<open>The argument loop of main\<close>

lemma main_loop_result:
  "main_loop rest volumes args
     = (volumes @ map (\<lambda>a. strings_TrimPrefix a ''-v='')
                    (filter (\<lambda>a. strings_HasPrefix a ''-v='') rest),
        args @ filter (\<lambda>a. \<not> strings_HasPrefix a ''-v='') rest)"
  by (induction rest volumes args rule: main_loop.induct) simp_all

lemma main_drop: "(if 2 < length (p # c # rest) then main_loop (drop 2 (p # c # rest)) [] []
                   else ([], [])) = main_loop rest [] []"
  by (cases rest) simp_all

lemma main_run_unfold:
  "command = ''run'' \<or> command = ''_child'' \<Longrightarrow>
   main env (prog # command # rest)
     = run env (snd (main_loop rest [] [])) (fst (main_loop rest [] [])) (command = ''_child'')"
  by (auto simp: main_def main_drop Let_def split: prod.splits)

lemma focker_run_unfold:
  assumes "command = ''run'' \<or> command = ''_child''"
  shows "focker env (prog # command # rest)
     = (case kernel env [] (MkdirAll containersDir perm_0700) of
          Some x \<Rightarrow> (1, [Sys (MkdirAll containersDir perm_0700) (Some x),
                         Log (''init containersDir: '' @ x)])
        | None \<Rightarrow>
           (case run env (snd (main_loop rest [] [])) (fst (main_loop rest [] []))
                   (command = ''_child'') [Sys (MkdirAll containersDir perm_0700) None] of
              (Ret u, h) \<Rightarrow> (0, h)
            | (Exit code, h) \<Rightarrow> (code, h)))"
  by (simp add: focker_def init_def main_run_unfold [OF assms] seq_def sys_def Let_def
      exitIfError_def log_Fatal_apply ret_def split: option.splits)

section \<open>Argument validation\<close>

text \<open>
  Claim C9. An invocation of \<open>run\<close> or \<open>_child\<close> with an empty command list ends with a
  fatal diagnostic before any kernel state is touched: \<open>run\<close> does nothing but write the
  diagnostic and exit with status 1, so no hostname, namespace, mount or pivot call occurs.
  For the whole process, whose arguments after the command word are all volume mappings,
  the only call ever made is the \<open>MkdirAll\<close> of the containers directory in \<open>init\<close>.
\<close>

theorem empty_command_is_fatal:
  "run env [] volumes isChild h = (Exit 1, h @ [Log ''at least 1 argument is required''])
   \<and> ((command = ''run'' \<or> command = ''_child'')
        \<and> list_all (\<lambda>a. strings_HasPrefix a ''-v='') rest
      \<longrightarrow> (\<exists>res msg. focker env (prog # command # rest)
                         = (1, [Sys (MkdirAll containersDir perm_0700) res, Log msg])))"
proof (intro conjI impI)
  show "run env [] volumes isChild h = (Exit 1, h @ [Log ''at least 1 argument is required''])"
    by (rule run_no_args)
next
  assume a: "(command = ''run'' \<or> command = ''_child'')
               \<and> list_all (\<lambda>a. strings_HasPrefix a ''-v='') rest"
  then have "filter (\<lambda>a. \<not> strings_HasPrefix a ''-v='') rest = []"
    by (simp add: list_all_iff)
  then have "snd (main_loop rest [] []) = []"
    by (simp add: main_loop_result)
  with a show "\<exists>res msg. focker env (prog # command # rest)
                         = (1, [Sys (MkdirAll containersDir perm_0700) res, Log msg])"
    by (simp add: focker_run_unfold run_no_args split: option.splits)
qed

theorem empty_command_is_fatal_witness:
  "(''_child'' = ''run'' \<or> ''_child'' = ''_child'')
   \<and> list_all (\<lambda>a. strings_HasPrefix a ''-v='') [''-v=/host/data:/data'']
   \<and> focker env_ok [''focker'', ''_child'', ''-v=/host/data:/data'']
       = (1, [Sys (MkdirAll ''./containers'' 448) None,
              Log ''at least 1 argument is required''])
   \<and> (\<exists>res msg. focker env_ok [''focker'', ''_child'', ''-v=/host/data:/data'']
                    = (1, [Sys (MkdirAll containersDir perm_0700) res, Log msg]))"
proof -
  have h: "(''_child'' = ''run'' \<or> ''_child'' = ''_child'')
             \<and> list_all (\<lambda>a. strings_HasPrefix a ''-v='') [''-v=/host/data:/data'']"
    by code_simp
  have e: "focker env_ok [''focker'', ''_child'', ''-v=/host/data:/data'']
       = (1, [Sys (MkdirAll ''./containers'' 448) None,
              Log ''at least 1 argument is required''])"
    by code_simp
  from empty_command_is_fatal [of env_ok "[]" True "[]" "''_child''"
      "[''-v=/host/data:/data'']" "''focker''"] h
  have "\<exists>res msg. focker env_ok [''focker'', ''_child'', ''-v=/host/data:/data'']
                    = (1, [Sys (MkdirAll containersDir perm_0700) res, Log msg])"
    by blast
  with h e show ?thesis by blast
qed

section \<open>Volume arguments\<close>

text \<open>
  Claim C10. Every argument of \<open>run\<close> or \<open>_child\<close> that begins with \<open>-v=\<close>, wherever it
  stands, also after the name of the command, is taken as a volume mapping and removed from
  the argument list: the arguments left are those without the prefix, in their order, the
  volumes are the others with the prefix cut off, and the command that the child starts
  for the user (the one that inherits the standard streams) has no word that begins with
  \<open>-v=\<close>.
\<close>

theorem volume_arguments_consumed:
  "main_loop rest [] []
     = (map (\<lambda>a. drop 3 a) (filter (\<lambda>a. strings_HasPrefix a ''-v='') rest),
        filter (\<lambda>a. \<not> strings_HasPrefix a ''-v='') rest)
   \<and> (\<forall>c res. Run c res \<in> set (snd (focker env (prog # ''_child'' # rest))) \<and> cmd_stdio c
         \<longrightarrow> list_all (\<lambda>a. \<not> strings_HasPrefix a ''-v='') (cmd_name c # cmd_args c))"
proof (intro conjI allI impI)
  have "map (\<lambda>a. strings_TrimPrefix a ''-v='') (filter (\<lambda>a. strings_HasPrefix a ''-v='') rest)
          = map (\<lambda>a. drop 3 a) (filter (\<lambda>a. strings_HasPrefix a ''-v='') rest)"
    by (rule map_cong) (simp_all add: strings_TrimPrefix_def eval_nat_numeral)
  then show "main_loop rest [] []
     = (map (\<lambda>a. drop 3 a) (filter (\<lambda>a. strings_HasPrefix a ''-v='') rest),
        filter (\<lambda>a. \<not> strings_HasPrefix a ''-v='') rest)"
    by (simp add: main_loop_result)
next
  fix c res
  let ?args = "snd (main_loop rest [] [])" and ?volumes = "fst (main_loop rest [] [])"
  let ?h = "[Sys (MkdirAll containersDir perm_0700) None]"
  assume a: "Run c res \<in> set (snd (focker env (prog # ''_child'' # rest))) \<and> cmd_stdio c"
  have args: "list_all (\<lambda>a. \<not> strings_HasPrefix a ''-v='') ?args"
    by (simp add: main_loop_result list_all_iff)
  obtain r h' where run: "run env ?args ?volumes True ?h = (r, h')"
    by (cases "run env ?args ?volumes True ?h")
  from a run have in_h': "Run c res \<in> set h'"
    by (auto simp: focker_run_unfold split: option.splits outcome.splits)
  have "c = user_cmd ?args \<and> ?args \<noteq> []"
  proof (cases "?args = []")
    case True
    with run in_h' show ?thesis by (auto simp: run_no_args)
  next
    case False
    from False run show ?thesis
    proof (cases rule: run_child_cases)
      case (Failed dn e msg)
      with in_h' have "Run c res \<in> set (dn @ [e])" by auto
      with Failed(7) have "setup_action (Start c)"
        by (rule guarded_event_setup) simp
      with a show ?thesis by simp
    next
      case (Invalid evs)
      with in_h' have "Run c res \<in> set evs" by auto
      with Invalid(4) have "setup_action (Start c)"
        by (rule guarded_all_event_setup) simp
      with a show ?thesis by simp
    next
      case (Launched evs res')
      show ?thesis
      proof (cases "Run c res \<in> set evs")
        case True
        with Launched(4) have "setup_action (Start c)"
          by (rule guarded_all_event_setup) simp
        with a show ?thesis by simp
      next
        case notin: False
        with in_h' Launched(3) have "c = user_cmd ?args"
          by (auto simp: err_line_def split: option.splits)
        with False show ?thesis by simp
      qed
    qed
  qed
  then have "cmd_name c # cmd_args c = ?args"
    by (cases ?args) (simp_all add: user_cmd_def)
  with args show "list_all (\<lambda>a. \<not> strings_HasPrefix a ''-v='') (cmd_name c # cmd_args c)"
    by simp
qed

theorem volume_arguments_consumed_witness:
  "main_loop [''ls'', ''-v=/host/data:/data'', ''-l''] [] []
     = ([''/host/data:/data''], [''ls'', ''-l''])
   \<and> Run \<lparr>cmd_name = ''ls'', cmd_args = [''-l''], cmd_stdio = True, cmd_attr = None\<rparr> (Exited 0)
       \<in> set (snd (focker env_ok [''focker'', ''_child'', ''ls'', ''-v=/host/data:/data'', ''-l'']))
   \<and> list_all (\<lambda>a. \<not> strings_HasPrefix a ''-v='') [''ls'', ''-l'']"
proof -
  let ?c = "\<lparr>cmd_name = ''ls'', cmd_args = [''-l''], cmd_stdio = True, cmd_attr = None\<rparr>"
  have m: "main_loop [''ls'', ''-v=/host/data:/data'', ''-l''] [] []
     = ([''/host/data:/data''], [''ls'', ''-l''])"
    by code_simp
  have e: "Run ?c (Exited 0)
       \<in> set (snd (focker env_ok [''focker'', ''_child'', ''ls'', ''-v=/host/data:/data'', ''-l'']))"
    by code_simp
  have "cmd_stdio ?c" by simp
  with e volume_arguments_consumed [of "[''ls'', ''-v=/host/data:/data'', ''-l'']" env_ok
      "''focker''"]
  have "list_all (\<lambda>a. \<not> strings_HasPrefix a ''-v='') (cmd_name ?c # cmd_args ?c)"
    by blast
  with m e show ?thesis by simp
qed

section \<open>The launcher\<close>

text \<open>
  Claim C7. In every \<open>run\<close> invocation that is not the child, the re-executed process is
  created with exactly the isolation flags for the hostname and domain name
  (\<open>CLONE_NEWUTS\<close>), the process IDs (\<open>CLONE_NEWPID\<close>) and the mount points
  (\<open>CLONE_NEWNS\<close>), and with the unshare flag \<open>CLONE_NEWNS\<close>. The only command the launcher
  ever runs is its own executable with the word \<open>_child\<close>, the volumes and the arguments;
  it carries these attributes, and it is run whenever the executable path is known.
\<close>

theorem launcher_isolation_flags:
  assumes "args \<noteq> []" and "run env args volumes False h = (r, h')"
  shows "\<exists>evs. h' = h @ evs
     \<and> (\<forall>c res. Run c res \<in> set evs \<longrightarrow>
           c = launcher_cmd (fst (os_Executable env)) args volumes
           \<and> cmd_attr c = Some \<lparr>Cloneflags = CLONE_NEWUTS OR CLONE_NEWPID OR CLONE_NEWNS,
                                 Unshareflags = CLONE_NEWNS\<rparr>
           \<and> cmd_attr c = Some \<lparr>Cloneflags = 0x24020000, Unshareflags = 0x20000\<rparr>
           \<and> cmd_args c = ''_child'' # map (\<lambda>vol. ''-v='' @ vol) volumes @ args)
     \<and> (snd (os_Executable env) = None \<longrightarrow>
           (\<exists>res. filter is_step evs
                    = [Run (launcher_cmd (fst (os_Executable env)) args volumes) res]))
     \<and> (snd (os_Executable env) \<noteq> None \<longrightarrow> filter is_step evs = [])"
  using assms
proof (cases rule: run_launcher_cases)
  case (NoExecutable msg)
  then show ?thesis by (simp add: is_step_def)
next
  case (Launched res)
  let ?c = "launcher_cmd (fst (os_Executable env)) args volumes"
  have flags: "cmd_attr ?c = Some \<lparr>Cloneflags = CLONE_NEWUTS OR CLONE_NEWPID OR CLONE_NEWNS,
                                 Unshareflags = CLONE_NEWNS\<rparr>"
    "cmd_attr ?c = Some \<lparr>Cloneflags = 0x24020000, Unshareflags = 0x20000\<rparr>"
    "cmd_args ?c = ''_child'' # map (\<lambda>vol. ''-v='' @ vol) volumes @ args"
    by (simp_all add: launcher_cmd_def run_SysProcAttr_def CLONE_NEWUTS_def CLONE_NEWPID_def
        CLONE_NEWNS_def)
  have "\<forall>c res'. Run c res' \<in> set ([Run ?c res] @ err_line res) \<longrightarrow> c = ?c"
    by (auto simp: err_line_def split: option.splits)
  moreover have "filter is_step ([Run ?c res] @ err_line res) = [Run ?c res]"
    by (simp add: is_step_def)
  ultimately show ?thesis
    using Launched(1,3) flags by (metis (no_types, lifting))
qed

theorem launcher_isolation_flags_witness:
  "[''/bin/sh''] \<noteq> []
   \<and> run env_ok [''/bin/sh''] [''/host/data:/data''] False []
       = (Exit 0,
          [Run \<lparr>cmd_name = ''/usr/local/bin/focker'',
                 cmd_args = [''_child'', ''-v=/host/data:/data'', ''/bin/sh''],
                 cmd_stdio = True,
                 cmd_attr = Some \<lparr>Cloneflags = 0x24020000, Unshareflags = 0x20000\<rparr>\<rparr>
             (Exited 0)])
   \<and> snd (os_Executable env_ok) = None
   \<and> (\<exists>evs res. snd (run env_ok [''/bin/sh''] [''/host/data:/data''] False []) = [] @ evs
         \<and> filter is_step evs
             = [Run (launcher_cmd (fst (os_Executable env_ok)) [''/bin/sh'']
                       [''/host/data:/data'']) res])"
proof -
  have a: "[''/bin/sh''] \<noteq> []"
    by simp
  have ok: "run env_ok [''/bin/sh''] [''/host/data:/data''] False []
       = (Exit 0,
          [Run \<lparr>cmd_name = ''/usr/local/bin/focker'',
                 cmd_args = [''_child'', ''-v=/host/data:/data'', ''/bin/sh''],
                 cmd_stdio = True,
                 cmd_attr = Some \<lparr>Cloneflags = 0x24020000, Unshareflags = 0x20000\<rparr>\<rparr>
             (Exited 0)])"
    by code_simp
  have x: "snd (os_Executable env_ok) = None"
    by code_simp
  from launcher_isolation_flags [OF a ok] x
  have "\<exists>evs res. snd (run env_ok [''/bin/sh''] [''/host/data:/data''] False []) = [] @ evs
         \<and> filter is_step evs
             = [Run (launcher_cmd (fst (os_Executable env_ok)) [''/bin/sh'']
                       [''/host/data:/data'']) res]"
    unfolding ok snd_conv by blast
  with a ok x show ?thesis by blast
qed

section \<open>The exit code\<close>

lemma setup_no_user_cmd:
  "list_all setup_action (actions evs) \<Longrightarrow> cmd_stdio c \<Longrightarrow> Run c res \<notin> set evs"
proof
  assume s: "list_all setup_action (actions evs)" and c: "cmd_stdio c" and "Run c res \<in> set evs"
  then have "Start c \<in> set (actions evs)"
    by (intro event_in_actions [of "Run c res"]) simp_all
  with s have "setup_action (Start c)"
    unfolding list_all_iff by blast
  with c show False by simp
qed

text \<open>
  Every run ends in one of two ways: with status 1 and a line of \<open>log.Fatal\<close> as its last
  event, the command of \<open>run\<close> never having been handed to \<open>cmd.Run()\<close>; or with
  \<open>cmd.Run()\<close> of that command as its last call, the error line if there is one, and the
  exit code that \<open>ExitCode()\<close> gives.
\<close>

lemma run_ends:
  assumes "run env args volumes isChild h = (r, h')"
  shows "(\<exists>evs msg. h' = h @ evs @ [Log msg] \<and> r = Exit 1
            \<and> list_all setup_action (actions evs))
       \<or> (\<exists>pre res. h' = h @ pre @ [Run (command_of env args volumes isChild) res] @ err_line res
            \<and> r = Exit (ExitCode res) \<and> list_all setup_action (actions pre)
            \<and> list_all succeeded pre
            \<and> (isChild \<longrightarrow> list_all volume_valid volumes
                   \<and> actions pre
                       = map fst (guarded_steps (containerId (rand_source env)) volumes)))"
proof (cases "args = []")
  case True
  with assms have "h' = h @ [] @ [Log ''at least 1 argument is required'']" "r = Exit 1"
    by (simp_all add: run_no_args)
  moreover have "list_all setup_action (actions [])" by simp
  ultimately show ?thesis by blast
next
  case False
  show ?thesis
  proof (cases isChild)
    case True
    with False assms have run: "run env args volumes True h = (r, h')" by simp
    from False run show ?thesis
    proof (cases rule: run_child_cases)
      case (Failed dn e msg)
      with guarded_steps_all_setup take_all_setup
      have "list_all setup_action (actions (dn @ [e]))" by metis
      with Failed(1,2) have "h' = h @ (dn @ [e]) @ [Log msg] \<and> r = Exit 1
          \<and> list_all setup_action (actions (dn @ [e]))"
        by simp
      then show ?thesis by blast
    next
      case (Invalid evs)
      then have "list_all setup_action (actions evs)"
        by (simp add: guarded_steps_all_setup)
      with Invalid(2,3) show ?thesis by blast
    next
      case (Launched evs res)
      let ?pre = "evs @ [StdoutLn (''pid '' @ show_nat (os_Getpid env) @ '' running ''
                                    @ args ! 0)]"
      from Launched(4,5) have "list_all setup_action (actions ?pre)" "list_all succeeded ?pre"
        "actions ?pre = map fst (guarded_steps (containerId (rand_source env)) volumes)"
        by (simp_all add: guarded_steps_all_setup)
      moreover from Launched(3) True
      have "h' = h @ ?pre @ [Run (command_of env args volumes isChild) res] @ err_line res"
        by (simp add: command_of_def)
      ultimately show ?thesis using Launched(1,2) by blast
    qed
  next
    case notChild: False
    with False assms have run: "run env args volumes False h = (r, h')" by simp
    from False run show ?thesis
    proof (cases rule: run_launcher_cases)
      case (NoExecutable msg)
      then have "h' = h @ [] @ [Log msg]" "r = Exit 1" by simp_all
      moreover have "list_all setup_action (actions [])" by simp
      ultimately show ?thesis by blast
    next
      case (Launched res)
      with notChild
      have "h' = h @ [] @ [Run (command_of env args volumes isChild) res] @ err_line res"
        by (simp add: command_of_def)
      moreover have "list_all setup_action (actions [])" "list_all succeeded []" by simp_all
      ultimately show ?thesis using Launched(2) notChild by blast
    qed
  qed
qed

lemma command_of_stdio: "cmd_stdio (command_of env args volumes isChild)"
  by (simp add: command_of_def user_cmd_def launcher_cmd_def)

text \<open>
  Claim C1, as stated: when the command cannot be started at all, the process exits with a
  non-zero status that is distinct from every code a child reports. The code calls
  \<open>os.Exit(-1)\<close> then, and the status of the process is 255. A child whose command cannot
  be started and a child whose command exits with 255 end with the same status, and their
  launchers do exactly the same: each reads 255 from its child, writes \<open>exit status 255\<close>
  and exits with 255.
\<close>

theorem startup_failure_status_counterexample:
  "fst (focker (env_cmd (NotStarted ''fork/exec /nonexistent: no such file or directory''))
          [''focker'', ''_child'', ''/nonexistent''])
     = - 1
   \<and> exit_status
        (fst (focker (env_cmd (NotStarted ''fork/exec /nonexistent: no such file or directory''))
                [''focker'', ''_child'', ''/nonexistent'']))
     = exit_status (fst (focker (env_cmd (Exited 255)) [''focker'', ''_child'', ''/nonexistent'']))
   \<and> focker (env_launching
                (env_cmd (NotStarted ''fork/exec /nonexistent: no such file or directory'')))
         [''focker'', ''run'', ''/nonexistent'']
     = (255,
        [Sys (MkdirAll ''./containers'' 448) None,
         Run \<lparr>cmd_name = ''/usr/local/bin/focker'', cmd_args = [''_child'', ''/nonexistent''],
                cmd_stdio = True,
                cmd_attr = Some \<lparr>Cloneflags = 0x24020000, Unshareflags = 0x20000\<rparr>\<rparr>
           (Exited 255),
         StderrLn ''exit status 255''])
   \<and> focker (env_launching (env_cmd (Exited 255))) [''focker'', ''run'', ''/nonexistent'']
     = (255,
        [Sys (MkdirAll ''./containers'' 448) None,
         Run \<lparr>cmd_name = ''/usr/local/bin/focker'', cmd_args = [''_child'', ''/nonexistent''],
                cmd_stdio = True,
                cmd_attr = Some \<lparr>Cloneflags = 0x24020000, Unshareflags = 0x20000\<rparr>\<rparr>
           (Exited 255),
         StderrLn ''exit status 255''])"
  by code_simp

text \<open>
  Claim C1, amended. Whenever the command of \<open>run\<close> starts and terminates with an exit
  status, the process exits with exactly that status (0 for \<open>/bin/true\<close>, 1 for
  \<open>/bin/false\<close>). If the command cannot be started at all, the error is written to standard
  error and the process calls \<open>os.Exit(-1)\<close>: its status is 255, which is not zero, and
  which is also the status of a command that exits with 255 itself.
\<close>

theorem run_exit_code:
  assumes "run env args volumes isChild h = (r, h')"
  shows "\<exists>evs. h' = h @ evs
     \<and> (\<forall>st. Run (command_of env args volumes isChild) (Exited st) \<in> set evs
            \<longrightarrow> r = Exit (uint st) \<and> exit_status (uint st) = st)
     \<and> (\<forall>err. Run (command_of env args volumes isChild) (NotStarted err) \<in> set evs
            \<longrightarrow> r = Exit (- 1) \<and> StderrLn err \<in> set evs
                \<and> exit_status (- 1) = 255 \<and> exit_status (- 1) \<noteq> 0
                \<and> exit_status (- 1) = exit_status (ExitCode (Exited 255)))"
proof -
  let ?c = "command_of env args volumes isChild"
  have st: "exit_status (- 1) = 255" "exit_status (- 1) \<noteq> 0"
    "exit_status (- 1) = exit_status (ExitCode (Exited 255))"
    by (simp_all add: exit_status_def)
  from run_ends [OF assms] show ?thesis
  proof (elim disjE exE conjE)
    fix evs msg
    assume h': "h' = h @ evs @ [Log msg]" and "r = Exit 1"
      and s: "list_all setup_action (actions evs)"
    have "Run ?c res \<notin> set (evs @ [Log msg])" for res
      using setup_no_user_cmd [OF s command_of_stdio] by simp
    with h' show ?thesis by blast
  next
    fix pre res
    assume h': "h' = h @ pre @ [Run ?c res] @ err_line res" and r: "r = Exit (ExitCode res)"
      and s: "list_all setup_action (actions pre)"
    have only: "res' = res" if "Run ?c res' \<in> set (pre @ [Run ?c res] @ err_line res)" for res'
      using that setup_no_user_cmd [OF s command_of_stdio]
      by (auto simp: err_line_def split: option.splits)
    have "r = Exit (uint st) \<and> exit_status (uint st) = st"
      if "Run ?c (Exited st) \<in> set (pre @ [Run ?c res] @ err_line res)" for st
      using only [OF that] r by (auto simp: exit_status_def)
    moreover have "r = Exit (- 1) \<and> StderrLn err \<in> set (pre @ [Run ?c res] @ err_line res)
        \<and> exit_status (- 1) = 255 \<and> exit_status (- 1) \<noteq> 0
        \<and> exit_status (- 1) = exit_status (ExitCode (Exited 255))"
      if "Run ?c (NotStarted err) \<in> set (pre @ [Run ?c res] @ err_line res)" for err
      using only [OF that] r st by (auto simp: err_line_def)
    ultimately show ?thesis using h' by blast
  qed
qed

theorem run_exit_code_witness:
  "run (env_cmd (Exited 1)) [''/bin/false''] [] True []
     = (Exit 1,
        [Sys (Sethostname ''b-dkryFMT07elszGNU'') None,
         Sys (MkdirAll ''containers/b-dkryFMT07elszGNU'' 448) None,
         Run \<lparr>cmd_name = ''tar'',
                cmd_args = [''-xzf'', ''./ubuntu-base-22.04-base-amd64.tar.gz'', ''-C'',
                            ''containers/b-dkryFMT07elszGNU''],
                cmd_stdio = False, cmd_attr = None\<rparr> (Exited 0),
         Sys (Mount ''containers/b-dkryFMT07elszGNU'' ''containers/b-dkryFMT07elszGNU'' []
                0x5000 []) None,
         Sys (MkdirAll ''containers/b-dkryFMT07elszGNU/.put_old'' 448) None,
         Sys (PivotRoot ''containers/b-dkryFMT07elszGNU''
                ''containers/b-dkryFMT07elszGNU/.put_old'') None,
         Sys (Chdir ''/'') None,
         Sys (Mount ''proc'' ''/proc'' ''proc'' 0 []) None,
         StdoutLn ''pid 1 running /bin/false'',
         Run \<lparr>cmd_name = ''/bin/false'', cmd_args = [], cmd_stdio = True,
                cmd_attr = None\<rparr> (Exited 1),
         StderrLn ''exit status 1''])
   \<and> run (env_cmd (NotStarted ''fork/exec /proc/self/exe: operation not permitted''))
       [''/bin/true''] [] False []
     = (Exit (- 1),
        [Run \<lparr>cmd_name = ''/usr/local/bin/focker'', cmd_args = [''_child'', ''/bin/true''],
                cmd_stdio = True,
                cmd_attr = Some \<lparr>Cloneflags = 0x24020000, Unshareflags = 0x20000\<rparr>\<rparr>
           (NotStarted ''fork/exec /proc/self/exe: operation not permitted''),
         StderrLn ''fork/exec /proc/self/exe: operation not permitted''])
   \<and> (\<exists>evs. snd (run (env_cmd (Exited 1)) [''/bin/false''] [] True []) = [] @ evs
         \<and> Run (command_of (env_cmd (Exited 1)) [''/bin/false''] [] True) (Exited 1) \<in> set evs
         \<and> fst (run (env_cmd (Exited 1)) [''/bin/false''] [] True []) = Exit (uint (1 :: 8 word)))"
proof -
  let ?evs = "[Sys (Sethostname ''b-dkryFMT07elszGNU'') None,
         Sys (MkdirAll ''containers/b-dkryFMT07elszGNU'' 448) None,
         Run \<lparr>cmd_name = ''tar'',
                cmd_args = [''-xzf'', ''./ubuntu-base-22.04-base-amd64.tar.gz'', ''-C'',
                            ''containers/b-dkryFMT07elszGNU''],
                cmd_stdio = False, cmd_attr = None\<rparr> (Exited 0),
         Sys (Mount ''containers/b-dkryFMT07elszGNU'' ''containers/b-dkryFMT07elszGNU'' []
                0x5000 []) None,
         Sys (MkdirAll ''containers/b-dkryFMT07elszGNU/.put_old'' 448) None,
         Sys (PivotRoot ''containers/b-dkryFMT07elszGNU''
                ''containers/b-dkryFMT07elszGNU/.put_old'') None,
         Sys (Chdir ''/'') None,
         Sys (Mount ''proc'' ''/proc'' ''proc'' 0 []) None,
         StdoutLn ''pid 1 running /bin/false'',
         Run \<lparr>cmd_name = ''/bin/false'', cmd_args = [], cmd_stdio = True,
                cmd_attr = None\<rparr> (Exited 1),
         StderrLn ''exit status 1'']"
  have child: "run (env_cmd (Exited 1)) [''/bin/false''] [] True [] = (Exit 1, ?evs)"
    by code_simp
  have launcher: "run (env_cmd (NotStarted ''fork/exec /proc/self/exe: operation not permitted''))
       [''/bin/true''] [] False []
     = (Exit (- 1),
        [Run \<lparr>cmd_name = ''/usr/local/bin/focker'', cmd_args = [''_child'', ''/bin/true''],
                cmd_stdio = True,
                cmd_attr = Some \<lparr>Cloneflags = 0x24020000, Unshareflags = 0x20000\<rparr>\<rparr>
           (NotStarted ''fork/exec /proc/self/exe: operation not permitted''),
         StderrLn ''fork/exec /proc/self/exe: operation not permitted''])"
    by code_simp
  have m: "Run (command_of (env_cmd (Exited 1)) [''/bin/false''] [] True) (Exited 1) \<in> set ?evs"
    by code_simp
  from run_exit_code [OF child] obtain evs where e: "?evs = [] @ evs"
    and x: "\<forall>st. Run (command_of (env_cmd (Exited 1)) [''/bin/false''] [] True) (Exited st)
                  \<in> set evs \<longrightarrow> Exit 1 = Exit (uint st) \<and> exit_status (uint st) = st"
    by blast
  from e have e': "evs = ?evs"
    by simp
  from x m have "Exit 1 = Exit (uint (1 :: 8 word))"
    unfolding e' by blast
  with m have "\<exists>evs. snd (run (env_cmd (Exited 1)) [''/bin/false''] [] True []) = [] @ evs
         \<and> Run (command_of (env_cmd (Exited 1)) [''/bin/false''] [] True) (Exited 1) \<in> set evs
         \<and> fst (run (env_cmd (Exited 1)) [''/bin/false''] [] True []) = Exit (uint (1 :: 8 word))"
    unfolding child fst_conv snd_conv by (metis append_Nil)
  with child launcher show ?thesis by blast
qed

section \<open>How the command is launched\<close>

text \<open>
  Claim C4, as stated: in its final step the child replaces its own process image with the
  command of the user, instead of starting a further process and waiting for it. The code
  does the opposite: in an environment where everything succeeds, the last call of the
  child is \<open>cmd.Run()\<close> of the command, no call replaces the process image, and the child
  itself then exits with the status of the command.
\<close>

theorem exec_replacement_counterexample:
  "last (actions (snd (focker env_ok [''focker'', ''_child'', ''/bin/true''])))
     = Start \<lparr>cmd_name = ''/bin/true'', cmd_args = [], cmd_stdio = True, cmd_attr = None\<rparr>
   \<and> filter is_exec (actions (snd (focker env_ok [''focker'', ''_child'', ''/bin/true'']))) = []
   \<and> last (snd (focker env_ok [''focker'', ''_child'', ''/bin/true'']))
     = Run \<lparr>cmd_name = ''/bin/true'', cmd_args = [], cmd_stdio = True, cmd_attr = None\<rparr>
         (Exited 0)
   \<and> fst (focker env_ok [''focker'', ''_child'', ''/bin/true'']) = 0"
  by code_simp

text \<open>
  Claim C4, amended. The child never replaces its process image. A bootstrap either ends
  with status 1 and a line of \<open>log.Fatal\<close> before the command is started, or, after all its
  guarded steps have succeeded, its final call is \<open>cmd.Run()\<close> of the command of the user,
  which starts a further process and waits for it; the child then writes the error of
  \<open>cmd.Run()\<close>, if any, to standard error and exits with the exit code of the command.
\<close>

theorem child_spawns_and_waits:
  assumes "args \<noteq> []" and "run env args volumes True h = (r, h')"
  shows "\<exists>evs. h' = h @ evs \<and> filter is_exec (actions evs) = []
     \<and> ((r = Exit 1 \<and> (\<exists>msg. last evs = Log msg) \<and> Start (user_cmd args) \<notin> set (actions evs))
        \<or> (\<exists>pre res. evs = pre @ [Run (user_cmd args) res] @ err_line res
               \<and> r = Exit (ExitCode res) \<and> list_all succeeded pre
               \<and> actions pre = map fst (guarded_steps (containerId (rand_source env)) volumes)
               \<and> last (actions evs) = Start (user_cmd args)))"
proof -
  have u: "\<not> setup_action (Start (user_cmd args))"
    by (simp add: user_cmd_def)
  have c: "command_of env args volumes True = user_cmd args"
    by (simp add: command_of_def)
  from run_ends [OF assms(2)] show ?thesis
  proof (elim disjE exE conjE)
    fix evs msg
    assume h': "h' = h @ evs @ [Log msg]" and r: "r = Exit 1"
      and s: "list_all setup_action (actions evs)"
    have a: "actions (evs @ [Log msg]) = actions evs"
      by simp
    from s have "filter is_exec (actions (evs @ [Log msg])) = []"
      unfolding a by (rule setup_actions_no_exec)
    moreover from s u have "Start (user_cmd args) \<notin> set (actions (evs @ [Log msg]))"
      unfolding a list_all_iff by blast
    ultimately show ?thesis using h' r by auto
  next
    fix pre res
    assume h': "h' = h @ pre @ [Run (command_of env args volumes True) res] @ err_line res"
      and r: "r = Exit (ExitCode res)" and s: "list_all setup_action (actions pre)"
      and ok: "list_all succeeded pre"
      and g: "True \<longrightarrow> list_all volume_valid volumes
                \<and> actions pre = map fst (guarded_steps (containerId (rand_source env)) volumes)"
    let ?evs = "pre @ [Run (user_cmd args) res] @ err_line res"
    have a: "actions ?evs = actions pre @ [Start (user_cmd args)]"
      by simp
    from s have "filter is_exec (actions ?evs) = []"
      unfolding a by (simp add: setup_actions_no_exec)
    moreover have "last (actions ?evs) = Start (user_cmd args)"
      unfolding a by simp
    ultimately show ?thesis using h' r ok g unfolding c by blast
  qed
qed

theorem child_spawns_and_waits_witness:
  "[''/bin/false''] \<noteq> []
   \<and> run (env_cmd (Exited 1)) [''/bin/false''] [] True []
     = (Exit 1,
        [Sys (Sethostname ''b-dkryFMT07elszGNU'') None,
         Sys (MkdirAll ''containers/b-dkryFMT07elszGNU'' 448) None,
         Run \<lparr>cmd_name = ''tar'',
                cmd_args = [''-xzf'', ''./ubuntu-base-22.04-base-amd64.tar.gz'', ''-C'',
                            ''containers/b-dkryFMT07elszGNU''],
                cmd_stdio = False, cmd_attr = None\<rparr> (Exited 0),
         Sys (Mount ''containers/b-dkryFMT07elszGNU'' ''containers/b-dkryFMT07elszGNU'' []
                0x5000 []) None,
         Sys (MkdirAll ''containers/b-dkryFMT07elszGNU/.put_old'' 448) None,
         Sys (PivotRoot ''containers/b-dkryFMT07elszGNU''
                ''containers/b-dkryFMT07elszGNU/.put_old'') None,
         Sys (Chdir ''/'') None,
         Sys (Mount ''proc'' ''/proc'' ''proc'' 0 []) None,
         StdoutLn ''pid 1 running /bin/false'',
         Run \<lparr>cmd_name = ''/bin/false'', cmd_args = [], cmd_stdio = True,
                cmd_attr = None\<rparr> (Exited 1),
         StderrLn ''exit status 1''])
   \<and> (\<exists>evs. snd (run (env_cmd (Exited 1)) [''/bin/false''] [] True []) = [] @ evs
         \<and> filter is_exec (actions evs) = [])"
proof -
  let ?evs = "[Sys (Sethostname ''b-dkryFMT07elszGNU'') None,
         Sys (MkdirAll ''containers/b-dkryFMT07elszGNU'' 448) None,
         Run \<lparr>cmd_name = ''tar'',
                cmd_args = [''-xzf'', ''./ubuntu-base-22.04-base-amd64.tar.gz'', ''-C'',
                            ''containers/b-dkryFMT07elszGNU''],
                cmd_stdio = False, cmd_attr = None\<rparr> (Exited 0),
         Sys (Mount ''containers/b-dkryFMT07elszGNU'' ''containers/b-dkryFMT07elszGNU'' []
                0x5000 []) None,
         Sys (MkdirAll ''containers/b-dkryFMT07elszGNU/.put_old'' 448) None,
         Sys (PivotRoot ''containers/b-dkryFMT07elszGNU''
                ''containers/b-dkryFMT07elszGNU/.put_old'') None,
         Sys (Chdir ''/'') None,
         Sys (Mount ''proc'' ''/proc'' ''proc'' 0 []) None,
         StdoutLn ''pid 1 running /bin/false'',
         Run \<lparr>cmd_name = ''/bin/false'', cmd_args = [], cmd_stdio = True,
                cmd_attr = None\<rparr> (Exited 1),
         StderrLn ''exit status 1'']"
  have a: "[''/bin/false''] \<noteq> []"
    by simp
  have child: "run (env_cmd (Exited 1)) [''/bin/false''] [] True [] = (Exit 1, ?evs)"
    by code_simp
  from child_spawns_and_waits [OF a child]
  have "\<exists>evs. snd (run (env_cmd (Exited 1)) [''/bin/false''] [] True []) = [] @ evs
         \<and> filter is_exec (actions evs) = []"
    unfolding child snd_conv by blast
  with a child show ?thesis by blast
qed

section \<open>Volume mappings\<close>

text \<open>
  Claim C2, as stated: when the volume list contains a string that does not split into
  exactly two non-empty pieces around \<open>:\<close>, the bootstrap ends with a fatal error before
  any volume is mounted. Two inputs show otherwise. With the volumes \<open>/a:/b\<close> and \<open>bad\<close>, the
  first volume is mounted before the second is looked at and rejected. With the single
  volume \<open>:\<close>, whose two pieces are empty, nothing is rejected: the mount is made and the
  command is run.
\<close>

theorem malformed_volume_counterexample:
  "\<not> two_nonempty_components ''bad''
   \<and> focker env_ok [''focker'', ''_child'', ''-v=/a:/b'', ''-v=bad'', ''/bin/true'']
     = (1, [Sys (MkdirAll ''./containers'' 448) None,
            Sys (Sethostname ''b-dkryFMT07elszGNU'') None,
            Sys (MkdirAll ''containers/b-dkryFMT07elszGNU'' 448) None,
            Run \<lparr>cmd_name = ''tar'',
                   cmd_args = [''-xzf'', ''./ubuntu-base-22.04-base-amd64.tar.gz'', ''-C'',
                               ''containers/b-dkryFMT07elszGNU''],
                   cmd_stdio = False, cmd_attr = None\<rparr> (Exited 0),
            Sys (MkdirAll ''containers/b-dkryFMT07elszGNU/b'' 448) None,
            Sys (Mount ''/a'' ''containers/b-dkryFMT07elszGNU/b'' [] 0x5000 []) None,
            Log ''invalid volume mapping: bad''])
   \<and> \<not> two_nonempty_components '':''
   \<and> fst (focker env_ok [''focker'', ''_child'', ''-v=:'', ''/bin/true'']) = 0
   \<and> mount_calls (snd (focker env_ok [''focker'', ''_child'', ''-v=:'', ''/bin/true'']))
     = [Mount [] ''containers/b-dkryFMT07elszGNU'' [] 0x5000 [],
        Mount ''containers/b-dkryFMT07elszGNU'' ''containers/b-dkryFMT07elszGNU'' [] 0x5000 [],
        Mount ''proc'' ''/proc'' ''proc'' 0 []]"
  by code_simp

text \<open>
  Claim C2, amended. When the volume list of a \<open>_child\<close> invocation contains a string that
  does not split into exactly two pieces around \<open>:\<close> (empty pieces are accepted), the
  bootstrap ends with a fatal error, status 1, and never gets past the first such string:
  the mount calls made are an initial segment of the bind mounts of the volumes that stand
  before it, so none at all when it is the first volume, and neither the root switch nor
  the command is ever reached.
\<close>

theorem malformed_volume_stops_bootstrap:
  assumes "args \<noteq> []" and "\<not> list_all volume_valid volumes"
    and "run env args volumes True h = (r, h')"
  shows "r = Exit 1
     \<and> (\<exists>evs. h' = h @ evs
           \<and> prefix (mount_calls evs)
                (map (bind_mount (rootfs_of (containerId (rand_source env))))
                   (takeWhile volume_valid volumes))
           \<and> (\<not> volume_valid (hd volumes) \<longrightarrow> mount_calls evs = [])
           \<and> Start (user_cmd args) \<notin> set (actions evs)
           \<and> Call (PivotRoot (rootfs_of (containerId (rand_source env)))
                      (filepath_Join (rootfs_of (containerId (rand_source env))) ''.put_old''))
               \<notin> set (actions evs))"
proof -
  let ?root = "rootfs_of (containerId (rand_source env))"
  let ?P = "map fst (guarded_steps (containerId (rand_source env)) volumes)"
  let ?binds = "map (bind_mount ?root) (takeWhile volume_valid volumes)"
  have u: "\<not> setup_action (Start (user_cmd args))"
    by (simp add: user_cmd_def)
  have m: "mounts_of ?P = ?binds"
    using assms(2) by (rule mounts_of_guarded_invalid)
  have first: "?binds = []" if "\<not> volume_valid (hd volumes)"
    using that assms(2) by (cases volumes) simp_all
  have np: "Call (PivotRoot ?root (filepath_Join ?root ''.put_old'')) \<notin> set ?P"
    using assms(2)
    by (auto simp: guarded_steps_def unzip_plan_def volumes_plan_def volume_plan_def
        bind_mount_def)
  have key: "r = Exit 1 \<and> (\<exists>evs. h' = h @ evs \<and> (\<exists>n. actions evs = take n ?P))"
    using assms(1,3)
  proof (cases rule: run_child_cases)
    case (Failed dn e msg)
    have "actions (dn @ [e, Log msg]) = actions (dn @ [e])"
      by (simp split: option.splits)
    with Failed(1,2,7) show ?thesis by metis
  next
    case (Invalid evs)
    have "actions (evs @ [Log (''invalid volume mapping: ''
                               @ hd (dropWhile volume_valid volumes))])
            = take (length ?P) ?P"
      using Invalid(4) by simp
    with Invalid(2,3) show ?thesis by metis
  next
    case (Launched evs res)
    with assms(2) show ?thesis by simp
  qed
  then obtain evs n where r: "r = Exit 1" and h': "h' = h @ evs" and a: "actions evs = take n ?P"
    by blast
  have "prefix (mounts_of (take n ?P)) (mounts_of ?P)"
    by (intro mounts_of_prefix take_is_prefix)
  then have p: "prefix (mount_calls evs) ?binds"
    by (simp add: mount_calls_def a m)
  moreover from p first have "\<not> volume_valid (hd volumes) \<longrightarrow> mount_calls evs = []"
    by auto
  moreover have "Start (user_cmd args) \<notin> set (actions evs)"
    using u guarded_steps_setup [of "Start (user_cmd args)"] a by (metis in_set_takeD)
  moreover have "Call (PivotRoot ?root (filepath_Join ?root ''.put_old'')) \<notin> set (actions evs)"
    using np a by (metis in_set_takeD)
  ultimately show ?thesis using r h' by blast
qed

theorem malformed_volume_stops_bootstrap_witness:
  "[''/bin/true''] \<noteq> []
   \<and> \<not> list_all volume_valid [''bad'', ''/a:/b'']
   \<and> run env_ok [''/bin/true''] [''bad'', ''/a:/b''] True []
     = (Exit 1,
        [Sys (Sethostname ''b-dkryFMT07elszGNU'') None,
         Sys (MkdirAll ''containers/b-dkryFMT07elszGNU'' 448) None,
         Run \<lparr>cmd_name = ''tar'',
                cmd_args = [''-xzf'', ''./ubuntu-base-22.04-base-amd64.tar.gz'', ''-C'',
                            ''containers/b-dkryFMT07elszGNU''],
                cmd_stdio = False, cmd_attr = None\<rparr> (Exited 0),
         Log ''invalid volume mapping: bad''])
   \<and> \<not> volume_valid (hd [''bad'', ''/a:/b''])
   \<and> (\<exists>evs. snd (run env_ok [''/bin/true''] [''bad'', ''/a:/b''] True []) = [] @ evs
         \<and> mount_calls evs = [])"
proof -
  let ?evs = "[Sys (Sethostname ''b-dkryFMT07elszGNU'') None,
         Sys (MkdirAll ''containers/b-dkryFMT07elszGNU'' 448) None,
         Run \<lparr>cmd_name = ''tar'',
                cmd_args = [''-xzf'', ''./ubuntu-base-22.04-base-amd64.tar.gz'', ''-C'',
                            ''containers/b-dkryFMT07elszGNU''],
                cmd_stdio = False, cmd_attr = None\<rparr> (Exited 0),
         Log ''invalid volume mapping: bad'']"
  have a: "[''/bin/true''] \<noteq> []"
    by simp
  have v: "\<not> list_all volume_valid [''bad'', ''/a:/b'']"
    by code_simp
  have f: "\<not> volume_valid (hd [''bad'', ''/a:/b''])"
    by code_simp
  have child: "run env_ok [''/bin/true''] [''bad'', ''/a:/b''] True [] = (Exit 1, ?evs)"
    by code_simp
  from malformed_volume_stops_bootstrap [OF a v child] f
  have "\<exists>evs. snd (run env_ok [''/bin/true''] [''bad'', ''/a:/b''] True []) = [] @ evs
         \<and> mount_calls evs = []"
    unfolding child snd_conv by blast
  with a v f child show ?thesis by blast
qed

section \<open>Unmounting on exit\<close>

text \<open>
  \<open>run\<close> never returns: every path ends in \<open>os.Exit\<close> or \<open>log.Fatal\<close>. Its deferred calls
  therefore never run, and no run makes an unmount call.
\<close>

lemma run_never_unmounts:
  assumes "run env args volumes isChild h = (r, h')"
  shows "\<exists>evs code. h' = h @ evs \<and> r = Exit code \<and> unmount_calls evs = []"
proof -
  from run_ends [OF assms] show ?thesis
  proof (elim disjE exE conjE)
    fix evs msg
    assume "h' = h @ evs @ [Log msg]" "r = Exit 1" "list_all setup_action (actions evs)"
    then show ?thesis
      by (auto simp: unmount_calls_def setup_actions_no_unmount)
  next
    fix pre res
    assume "h' = h @ pre @ [Run (command_of env args volumes isChild) res] @ err_line res"
      "r = Exit (ExitCode res)" "list_all setup_action (actions pre)"
    then show ?thesis
      by (auto simp: unmount_calls_def setup_actions_no_unmount)
  qed
qed

text \<open>
  Claim C3 says that a successful \<open>_child\<close> invocation with n volumes makes n unmount
  calls on exit, one for each mounted target in the order of mounting. With one volume,
  every call succeeding and the command exiting with 0, the child makes the bind mount and
  exits with 0 without a single unmount call: the deferred closure that unmounts the
  targets is registered, but \<open>os.Exit\<close> ends the process before any deferred call runs.
\<close>

theorem no_unmount_on_exit:
  "focker env_ok [''focker'', ''_child'', ''-v=/host/data:/data'', ''/bin/true'']
     = (0, [Sys (MkdirAll ''./containers'' 448) None,
            Sys (Sethostname ''b-dkryFMT07elszGNU'') None,
            Sys (MkdirAll ''containers/b-dkryFMT07elszGNU'' 448) None,
            Run \<lparr>cmd_name = ''tar'',
                   cmd_args = [''-xzf'', ''./ubuntu-base-22.04-base-amd64.tar.gz'', ''-C'',
                               ''containers/b-dkryFMT07elszGNU''],
                   cmd_stdio = False, cmd_attr = None\<rparr> (Exited 0),
            Sys (MkdirAll ''containers/b-dkryFMT07elszGNU/data'' 448) None,
            Sys (Mount ''/host/data'' ''containers/b-dkryFMT07elszGNU/data'' [] 0x5000 []) None,
            Sys (Mount ''containers/b-dkryFMT07elszGNU'' ''containers/b-dkryFMT07elszGNU'' []
                   0x5000 []) None,
            Sys (MkdirAll ''containers/b-dkryFMT07elszGNU/.put_old'' 448) None,
            Sys (PivotRoot ''containers/b-dkryFMT07elszGNU''
                   ''containers/b-dkryFMT07elszGNU/.put_old'') None,
            Sys (Chdir ''/'') None,
            Sys (Mount ''proc'' ''/proc'' ''proc'' 0 []) None,
            StdoutLn ''pid 1 running /bin/true'',
            Run \<lparr>cmd_name = ''/bin/true'', cmd_args = [], cmd_stdio = True,
                   cmd_attr = None\<rparr> (Exited 0)])
   \<and> unmount_calls
        (snd (focker env_ok [''focker'', ''_child'', ''-v=/host/data:/data'', ''/bin/true'']))
     = []
   \<and> snd (run_deferred env_ok
            [UnmountCall ''/proc'' 0, UnmountVolumes [''/data'']] [])
     = [Sys (Unmount ''/proc'' 0) None, Sys (Unmount ''/data'' 0) None]"
  by code_simp

end
